theory Spec2Isabelle
  imports Main "HOL-Library.AList"
begin

section \<open>Request log store of the proxy: data model\<close>

text \<open>
  The development follows \<^verbatim>\<open>pkg/db/sqlite/sqlite.go\<close> (the repository client) and
  the function \<^verbatim>\<open>parseRequestLog\<close> of the query API resolvers.
  Go strings and byte slices are byte sequences, hence lists of \<^typ>\<open>char\<close>. A
  \<^verbatim>\<open>time.Time\<close> is the instant it denotes. A \<^verbatim>\<open>url.URL\<close> is its text form (what
  \<^verbatim>\<open>URL.String()\<close> returns and the store keeps).
\<close>

type_synonym bytes = string
type_synonym Time = int

text \<open>
  \<^verbatim>\<open>http.Header\<close> is \<^verbatim>\<open>map[string][]string\<close>. It is an association list with pairwise
  distinct keys; the order of the list is the order in which one \<^verbatim>\<open>range\<close> loop visits
  the map, which Go leaves unspecified. A nil map is \<open>None\<close>.
\<close>

type_synonym Header = "(string \<times> string list) list"

definition Header_Values :: "Header \<Rightarrow> string \<Rightarrow> string list" where
  "Header_Values h k = (case map_of h k of None \<Rightarrow> [] | Some vs \<Rightarrow> vs)"

definition range_Header :: "Header option \<Rightarrow> (string \<times> string list) list" where
  "range_Header h = (case h of None \<Rightarrow> [] | Some kvs \<Rightarrow> kvs)"

record http_Request =
  Method :: string
  URL :: string
  Proto :: string
  Header :: "Header option"

record http_Response =
  Status :: string
  StatusCode :: int
  res_Proto :: string
  res_Header :: "Header option"

record reqlog_Response =
  res_ID :: int
  RequestID :: int
  Response :: http_Response
  res_Body :: bytes
  res_Timestamp :: Time

record reqlog_Request =
  ID :: int
  Request :: http_Request
  Body :: bytes
  Timestamp :: Time
  req_Response :: "reqlog_Response option"

text \<open>
  Errors are values. \<open>Errorf msg cause\<close> is \<^verbatim>\<open>fmt.Errorf(msg + ": %v", cause)\<close>;
  \<open>DriverErr\<close> is an error raised by \<^verbatim>\<open>database/sql\<close> or the SQLite driver;
  \<open>InvalidMethod m\<close> is \<^verbatim>\<open>fmt.Errorf("request has invalid method: %v", m)\<close>.
\<close>

datatype error =
    ErrRequestNotFound
  | ErrNoRows
  | DriverErr string
  | Errorf string error
  | InvalidMethod string

section \<open>Canonical header keys (net/textproto)\<close>

text \<open>
  \<^verbatim>\<open>http.Header.Add\<close> stores a value under \<^verbatim>\<open>textproto.CanonicalMIMEHeaderKey(key)\<close>:
  if every byte of the key is a valid header field byte, the first letter and each
  letter after a hyphen are upper-cased and all other letters lower-cased; otherwise
  the key is returned unchanged.
\<close>

definition validHeaderFieldByte :: "char \<Rightarrow> bool" where
  "validHeaderFieldByte c =
     (let n = (of_char c :: nat) in
        (48 \<le> n \<and> n \<le> 57) \<or> (65 \<le> n \<and> n \<le> 90) \<or> (97 \<le> n \<and> n \<le> 122) \<or>
        n \<in> {33, 35, 36, 37, 38, 39, 42, 43, 45, 46, 94, 95, 96, 124, 126})"

definition toLower :: nat where
  "toLower = 32"

definition canon_byte :: "bool \<Rightarrow> char \<Rightarrow> char" where
  "canon_byte upper c =
     (let n = (of_char c :: nat) in
        if upper \<and> 97 \<le> n \<and> n \<le> 122 then char_of (n - toLower)
        else if \<not> upper \<and> 65 \<le> n \<and> n \<le> 90 then char_of (n + toLower)
        else c)"

fun canonicalMIMEHeaderKey :: "bool \<Rightarrow> string \<Rightarrow> string" where
  "canonicalMIMEHeaderKey upper [] = []"
| "canonicalMIMEHeaderKey upper (c # cs) =
     (let c' = canon_byte upper c in c' # canonicalMIMEHeaderKey (c' = CHR ''-'') cs)"

definition CanonicalMIMEHeaderKey :: "string \<Rightarrow> string" where
  "CanonicalMIMEHeaderKey s =
     (if list_all validHeaderFieldByte s then canonicalMIMEHeaderKey True s else s)"

text \<open>\<^verbatim>\<open>h.Add(key, value)\<close>: \<^verbatim>\<open>h[k] = append(h[k], value)\<close> for the canonical key \<open>k\<close>.\<close>

definition Header_Add :: "Header \<Rightarrow> string \<Rightarrow> string \<Rightarrow> Header" where
  "Header_Add h key v =
     (let k = CanonicalMIMEHeaderKey key in AList.update k (Header_Values h k @ [v]) h)"

section \<open>Projection planner\<close>

text \<open>
  The projection reaches the client through the request context: the GraphQL fields
  the caller selected, each with its nested selections. \<^verbatim>\<open>graphql.CollectFieldsCtx\<close>
  and \<^verbatim>\<open>graphql.CollectFields\<close> return that tree level by level.
\<close>

datatype field = Field (Name: string) (Selections: "field list")

definition reqFieldToColumnMap :: "string \<rightharpoonup> string" where
  "reqFieldToColumnMap = map_of
     [(''proto'', ''proto AS req_proto''),
      (''url'', ''url''),
      (''method'', ''method''),
      (''body'', ''body AS req_body''),
      (''timestamp'', ''timestamp AS req_timestamp'')]"

definition resFieldToColumnMap :: "string \<rightharpoonup> string" where
  "resFieldToColumnMap = map_of
     [(''requestId'', ''req_id AS res_req_id''),
      (''proto'', ''proto AS res_proto''),
      (''statusCode'', ''status_code''),
      (''statusReason'', ''status_reason''),
      (''body'', ''body AS res_body''),
      (''timestamp'', ''timestamp AS res_timestamp'')]"

definition headerFieldToColumnMap :: "string \<rightharpoonup> string" where
  "headerFieldToColumnMap = map_of [(''key'', ''key''), (''value'', ''value'')]"

record httpRequestLogsQuery =
  requestCols :: "string list"
  requestHeaderCols :: "string list"
  responseHeaderCols :: "string list"
  joinResponse :: bool

text \<open>The three nested loops of \<^verbatim>\<open>parseHTTPRequestLogsQuery\<close>, innermost first.\<close>

fun headerFields_loop :: "string list \<Rightarrow> field list \<Rightarrow> string list" where
  "headerFields_loop cols [] = cols"
| "headerFields_loop cols (headerField # headerFields) =
     headerFields_loop
       (case headerFieldToColumnMap (Name headerField) of
          Some col \<Rightarrow> cols @ [col]
        | None \<Rightarrow> cols)
       headerFields"

fun resFields_loop :: "string list \<times> string list \<Rightarrow> field list \<Rightarrow> string list \<times> string list" where
  "resFields_loop (reqCols, resHeaderCols) [] = (reqCols, resHeaderCols)"
| "resFields_loop (reqCols, resHeaderCols) (resField # resFields) =
     (let (reqCols1, resHeaderCols1) =
            (if Name resField = ''headers''
             then (reqCols @ [''res.id AS res_id''],
                   headerFields_loop resHeaderCols (Selections resField))
             else (reqCols, resHeaderCols));
          reqCols2 =
            (case resFieldToColumnMap (Name resField) of
               Some col \<Rightarrow> reqCols1 @ [''res.'' @ col]
             | None \<Rightarrow> reqCols1)
      in resFields_loop (reqCols2, resHeaderCols1) resFields)"

fun reqFields_loop :: "httpRequestLogsQuery \<Rightarrow> field list \<Rightarrow> httpRequestLogsQuery" where
  "reqFields_loop q [] = q"
| "reqFields_loop q (reqField # reqFields) =
     (let q1 = (case reqFieldToColumnMap (Name reqField) of
                  Some col \<Rightarrow> q\<lparr>requestCols := requestCols q @ [''req.'' @ col]\<rparr>
                | None \<Rightarrow> q);
          q2 = (if Name reqField = ''headers''
                then q1\<lparr>requestHeaderCols :=
                          headerFields_loop (requestHeaderCols q1) (Selections reqField)\<rparr>
                else q1);
          q3 = (if Name reqField = ''response''
                then (let (reqCols, resHeaderCols) =
                            resFields_loop (requestCols q2, responseHeaderCols q2)
                              (Selections reqField)
                      in q2\<lparr>joinResponse := True, requestCols := reqCols,
                            responseHeaderCols := resHeaderCols\<rparr>)
                else q2)
      in reqFields_loop q3 reqFields)"

definition parseHTTPRequestLogsQuery :: "field list \<Rightarrow> httpRequestLogsQuery" where
  "parseHTTPRequestLogsQuery reqFields =
     reqFields_loop
       \<lparr>requestCols = [''req.id AS req_id'', ''res.id AS res_id''],
        requestHeaderCols = [], responseHeaderCols = [], joinResponse = False\<rparr>
       reqFields"

text \<open>
  The statement the squirrel builder holds: \<^verbatim>\<open>Select(cols...).From(t)\<close>, then optionally
  \<^verbatim>\<open>LeftJoin\<close>, \<^verbatim>\<open>Where\<close> and \<^verbatim>\<open>OrderBy\<close>.
\<close>

record select_builder =
  Columns :: "string list"
  From :: string
  Joins :: "string list"
  WhereParts :: "string list"
  OrderBys :: "string list"

definition sq_Select :: "string list \<Rightarrow> select_builder" where
  "sq_Select cols = \<lparr>Columns = cols, From = [], Joins = [], WhereParts = [], OrderBys = []\<rparr>"

definition sq_From :: "string \<Rightarrow> select_builder \<Rightarrow> select_builder" where
  "sq_From t b = b\<lparr>From := t\<rparr>"

definition sq_LeftJoin :: "string \<Rightarrow> select_builder \<Rightarrow> select_builder" where
  "sq_LeftJoin j b = b\<lparr>Joins := Joins b @ [j]\<rparr>"

definition sq_Where :: "string \<Rightarrow> select_builder \<Rightarrow> select_builder" where
  "sq_Where w b = b\<lparr>WhereParts := WhereParts b @ [w]\<rparr>"

definition sq_OrderBy :: "string \<Rightarrow> select_builder \<Rightarrow> select_builder" where
  "sq_OrderBy ob b = b\<lparr>OrderBys := OrderBys b @ [ob]\<rparr>"

text \<open>\<^verbatim>\<open>ToSql\<close> refuses a statement without result columns.\<close>

definition sq_ToSql :: "select_builder \<Rightarrow> error + select_builder" where
  "sq_ToSql b =
     (if Columns b = []
      then Inl (DriverErr ''select statements must have at least one result column'')
      else Inr b)"

definition FindRequestLogs_query :: "httpRequestLogsQuery \<Rightarrow> select_builder" where
  "FindRequestLogs_query httpReqLogsQuery =
     (let reqQuery = sq_OrderBy ''req.id DESC''
                       (sq_From ''http_requests req'' (sq_Select (requestCols httpReqLogsQuery)))
      in if joinResponse httpReqLogsQuery
         then sq_LeftJoin ''http_responses res ON req.id = res.req_id'' reqQuery
         else reqQuery)"

definition FindRequestLogByID_query :: "httpRequestLogsQuery \<Rightarrow> select_builder" where
  "FindRequestLogByID_query httpReqLogsQuery =
     (let reqQuery = sq_Where ''req.id = ?''
                       (sq_From ''http_requests req'' (sq_Select (requestCols httpReqLogsQuery)))
      in if joinResponse httpReqLogsQuery
         then sq_LeftJoin ''http_responses res ON req.id = res.req_id'' reqQuery
         else reqQuery)"

section \<open>The SQLite store\<close>

text \<open>
  The three tables of \<^verbatim>\<open>prepareSchema\<close>. A table is the list of its rows in rowid
  order. Row ids are SQLite \<^verbatim>\<open>INTEGER PRIMARY KEY\<close> values: an insert without an id gets
  the largest id of the table plus one (1 in an empty table). They are unbounded integers
  here; the client does no arithmetic on them.
\<close>

record http_requests_row =
  req_id :: int
  req_proto :: string
  req_url :: string
  req_method :: string
  req_body :: bytes
  req_timestamp :: Time

record http_responses_row =
  rsp_id :: int
  rsp_req_id :: int
  rsp_proto :: string
  rsp_status_code :: int
  rsp_status_reason :: string
  rsp_body :: bytes
  rsp_timestamp :: Time

record http_headers_row =
  hdr_id :: int
  hdr_req_id :: "int option"
  hdr_res_id :: "int option"
  hdr_key :: string
  hdr_value :: string

record database =
  http_requests :: "http_requests_row list"
  http_responses :: "http_responses_row list"
  http_headers :: "http_headers_row list"

definition empty_database :: database where
  "empty_database = \<lparr>http_requests = [], http_responses = [], http_headers = []\<rparr>"

definition next_rowid :: "int list \<Rightarrow> int" where
  "next_rowid ids = (if ids = [] then 1 else Max (set ids) + 1)"

text \<open>
  The referential constraints of the schema. The client opens the database with
  \<^verbatim>\<open>_foreign_keys=1\<close>, so SQLite refuses an insert that would break them.
\<close>

definition foreign_keys_ok :: "database \<Rightarrow> bool" where
  "foreign_keys_ok db =
     (list_all (\<lambda>s. rsp_req_id s \<in> set (map req_id (http_requests db))) (http_responses db) \<and>
      list_all (\<lambda>h. (case hdr_req_id h of None \<Rightarrow> True
                      | Some i \<Rightarrow> i \<in> set (map req_id (http_requests db))) \<and>
                     (case hdr_res_id h of None \<Rightarrow> True
                      | Some i \<Rightarrow> i \<in> set (map rsp_id (http_responses db))))
        (http_headers db))"

text \<open>
  A connection: the committed store that every reader sees, the working copy of the open
  transaction (if any), and the outcomes of the driver calls still to come. Each call into
  \<^verbatim>\<open>database/sql\<close> that can fail for reasons outside the program (I/O, a busy or full
  database, a cancelled context) takes the next outcome: \<open>True\<close> makes the call fail. When
  the list is exhausted every further call succeeds.
\<close>

record conn =
  store :: database
  work :: "database option"
  faults :: "bool list"

definition driver_call :: "string \<Rightarrow> conn \<Rightarrow> (error + unit) \<times> conn" where
  "driver_call what c =
     (case faults c of
        [] \<Rightarrow> (Inr (), c)
      | failed # rest \<Rightarrow>
          (if failed then Inl (DriverErr what) else Inr (), c\<lparr>faults := rest\<rparr>))"

definition BeginTxx :: "conn \<Rightarrow> (error + unit) \<times> conn" where
  "BeginTxx c =
     (case driver_call ''begin'' c of
        (Inl e, c') \<Rightarrow> (Inl e, c')
      | (Inr _, c') \<Rightarrow> (Inr (), c'\<lparr>work := Some (store c')\<rparr>))"

text \<open>
  \<^verbatim>\<open>tx.Rollback()\<close> discards the working copy; after a commit it finds the transaction
  done and changes nothing. The client ignores its result.
\<close>

definition Rollback :: "conn \<Rightarrow> conn" where
  "Rollback c = c\<lparr>work := None\<rparr>"

text \<open>
  \<^verbatim>\<open>tx.Commit()\<close> marks the transaction done whatever the driver answers; on success the
  working copy becomes the store, on failure the driver rolls it back.
\<close>

definition Commit :: "conn \<Rightarrow> (error + unit) \<times> conn" where
  "Commit c =
     (case driver_call ''commit'' c of
        (Inl e, c') \<Rightarrow> (Inl e, c'\<lparr>work := None\<rparr>)
      | (Inr _, c') \<Rightarrow>
          (case work c' of
             None \<Rightarrow> (Inl (DriverErr ''sql: transaction has already been committed or rolled back''), c')
           | Some w \<Rightarrow> (Inr (), c'\<lparr>store := w, work := None\<rparr>)))"

definition PrepareContext :: "conn \<Rightarrow> (error + unit) \<times> conn" where
  "PrepareContext c = driver_call ''prepare'' c"

definition LastInsertId :: "int \<Rightarrow> conn \<Rightarrow> (error + int) \<times> conn" where
  "LastInsertId rowid c =
     (case driver_call ''last insert id'' c of
        (Inl e, c') \<Rightarrow> (Inl e, c')
      | (Inr _, c') \<Rightarrow> (Inr rowid, c'))"

text \<open>The three \<^verbatim>\<open>INSERT\<close> statements, on the tables themselves.\<close>

definition insert_request ::
  "string \<Rightarrow> string \<Rightarrow> string \<Rightarrow> bytes \<Rightarrow> Time \<Rightarrow> database \<Rightarrow> int \<times> database" where
  "insert_request proto url meth body timestamp db =
     (let rowid = next_rowid (map req_id (http_requests db))
      in (rowid,
          db\<lparr>http_requests := http_requests db @
               [\<lparr>req_id = rowid, req_proto = proto, req_url = url, req_method = meth,
                 req_body = body, req_timestamp = timestamp\<rparr>]\<rparr>))"

definition insert_response ::
  "int \<Rightarrow> string \<Rightarrow> int \<Rightarrow> string \<Rightarrow> bytes \<Rightarrow> Time \<Rightarrow> database \<Rightarrow> int \<times> database" where
  "insert_response reqID proto statusCode statusReason body timestamp db =
     (let rowid = next_rowid (map rsp_id (http_responses db))
      in (rowid,
          db\<lparr>http_responses := http_responses db @
               [\<lparr>rsp_id = rowid, rsp_req_id = reqID, rsp_proto = proto,
                 rsp_status_code = statusCode, rsp_status_reason = statusReason,
                 rsp_body = body, rsp_timestamp = timestamp\<rparr>]\<rparr>))"

datatype owner = Req_id | Res_id

definition insert_header :: "owner \<Rightarrow> int \<Rightarrow> string \<Rightarrow> string \<Rightarrow> database \<Rightarrow> database" where
  "insert_header col ownerID k v db =
     db\<lparr>http_headers := http_headers db @
          [\<lparr>hdr_id = next_rowid (map hdr_id (http_headers db)),
            hdr_req_id = (if col = Req_id then Some ownerID else None),
            hdr_res_id = (if col = Res_id then Some ownerID else None),
            hdr_key = k, hdr_value = v\<rparr>]\<rparr>"

text \<open>
  \<^verbatim>\<open>stmt.ExecContext\<close> inside the transaction: a driver call, then the insert on the
  working copy, refused when a foreign key has no parent row.
\<close>

definition tx_exec ::
  "(database \<Rightarrow> bool) \<Rightarrow> (database \<Rightarrow> 'a \<times> database) \<Rightarrow> conn \<Rightarrow> (error + 'a) \<times> conn" where
  "tx_exec allowed ins c =
     (case driver_call ''exec'' c of
        (Inl e, c') \<Rightarrow> (Inl e, c')
      | (Inr _, c') \<Rightarrow>
          (case work c' of
             None \<Rightarrow> (Inl (DriverErr ''sql: transaction has already been committed or rolled back''), c')
           | Some w \<Rightarrow>
               (if allowed w
                then (let (r, w') = ins w in (Inr r, c'\<lparr>work := Some w'\<rparr>))
                else (Inl (DriverErr ''FOREIGN KEY constraint failed''), c'))))"

definition exec_insert_request ::
  "string \<Rightarrow> string \<Rightarrow> string \<Rightarrow> bytes \<Rightarrow> Time \<Rightarrow> conn \<Rightarrow> (error + int) \<times> conn" where
  "exec_insert_request proto url meth body timestamp =
     tx_exec (\<lambda>w. True) (insert_request proto url meth body timestamp)"

definition exec_insert_response ::
  "int \<Rightarrow> string \<Rightarrow> int \<Rightarrow> string \<Rightarrow> bytes \<Rightarrow> Time \<Rightarrow> conn \<Rightarrow> (error + int) \<times> conn" where
  "exec_insert_response reqID proto statusCode statusReason body timestamp =
     tx_exec (\<lambda>w. reqID \<in> set (map req_id (http_requests w)))
       (insert_response reqID proto statusCode statusReason body timestamp)"

definition parent_exists :: "owner \<Rightarrow> int \<Rightarrow> database \<Rightarrow> bool" where
  "parent_exists col ownerID w =
     (if col = Req_id then ownerID \<in> set (map req_id (http_requests w))
      else ownerID \<in> set (map rsp_id (http_responses w)))"

definition exec_insert_header ::
  "owner \<Rightarrow> int \<Rightarrow> string \<Rightarrow> string \<Rightarrow> conn \<Rightarrow> (error + unit) \<times> conn" where
  "exec_insert_header col ownerID k v =
     tx_exec (parent_exists col ownerID) (\<lambda>w. ((), insert_header col ownerID k v w))"

section \<open>Write path\<close>

text \<open>\<^verbatim>\<open>insertHeaders\<close>: the inner loop over the values of one key, then the loop over keys.\<close>

fun insertHeaders_values ::
  "owner \<Rightarrow> int \<Rightarrow> string \<Rightarrow> string list \<Rightarrow> conn \<Rightarrow> (error + unit) \<times> conn" where
  "insertHeaders_values stmt ownerID k [] c = (Inr (), c)"
| "insertHeaders_values stmt ownerID k (v # vs) c =
     (case exec_insert_header stmt ownerID k v c of
        (Inl e, c') \<Rightarrow> (Inl (Errorf ''could not execute statement'' e), c')
      | (Inr _, c') \<Rightarrow> insertHeaders_values stmt ownerID k vs c')"

fun insertHeaders ::
  "owner \<Rightarrow> int \<Rightarrow> (string \<times> string list) list \<Rightarrow> conn \<Rightarrow> (error + unit) \<times> conn" where
  "insertHeaders stmt ownerID [] c = (Inr (), c)"
| "insertHeaders stmt ownerID ((k, vs) # headers) c =
     (case insertHeaders_values stmt ownerID k vs c of
        (Inl e, c') \<Rightarrow> (Inl e, c')
      | (Inr _, c') \<Rightarrow> insertHeaders stmt ownerID headers c')"

text \<open>
  \<^verbatim>\<open>AddRequestLog\<close> after \<^verbatim>\<open>defer tx.Rollback()\<close>: every \<^verbatim>\<open>return\<close> of this part is
  followed by the deferred rollback.
\<close>

definition AddRequestLog_tx ::
  "reqlog_Request \<Rightarrow> conn \<Rightarrow> (error + reqlog_Request) \<times> conn" where
  "AddRequestLog_tx reqLog c1 =
     (case PrepareContext c1 of
        (Inl e, c2) \<Rightarrow> (Inl (Errorf ''sqlite: could not prepare statement'' e), c2)
      | (Inr _, c2) \<Rightarrow>
     (case exec_insert_request (Proto (Request reqLog)) (URL (Request reqLog))
             (Method (Request reqLog)) (Body reqLog) (Timestamp reqLog) c2 of
        (Inl e, c3) \<Rightarrow> (Inl (Errorf ''sqlite: could not execute statement'' e), c3)
      | (Inr result, c3) \<Rightarrow>
     (case LastInsertId result c3 of
        (Inl e, c4) \<Rightarrow> (Inl (Errorf ''sqlite: could not get last insert ID'' e), c4)
      | (Inr reqID, c4) \<Rightarrow>
     (case PrepareContext c4 of
        (Inl e, c5) \<Rightarrow> (Inl (Errorf ''sqlite: could not prepare statement'' e), c5)
      | (Inr _, c5) \<Rightarrow>
     (case insertHeaders Req_id reqID (range_Header (Header (Request reqLog))) c5 of
        (Inl e, c6) \<Rightarrow> (Inl (Errorf ''sqlite: could not insert http headers'' e), c6)
      | (Inr _, c6) \<Rightarrow>
     (case Commit c6 of
        (Inl e, c7) \<Rightarrow> (Inl (Errorf ''sqlite: could not commit transaction'' e), c7)
      | (Inr _, c7) \<Rightarrow> (Inr (reqLog\<lparr>ID := reqID\<rparr>), c7)))))))"

definition AddRequestLog ::
  "http_Request \<Rightarrow> bytes \<Rightarrow> Time \<Rightarrow> conn \<Rightarrow> (error + reqlog_Request) \<times> conn" where
  "AddRequestLog req body timestamp c =
     (let reqLog = \<lparr>ID = 0, Request = req, Body = body, Timestamp = timestamp,
                    req_Response = None\<rparr>
      in case BeginTxx c of
           (Inl e, c1) \<Rightarrow> (Inl (Errorf ''sqlite: could not start transaction'' e), c1)
         | (Inr _, c1) \<Rightarrow>
             (let (r, c') = AddRequestLog_tx reqLog c1 in (r, Rollback c')))"

text \<open>The status reason \<^verbatim>\<open>AddResponseLog\<close> stores: \<^verbatim>\<open>Status[4:]\<close> when the line is longer than 4.\<close>

definition statusReason_of :: "string \<Rightarrow> string" where
  "statusReason_of status = (if length status > 4 then drop 4 status else [])"

definition AddResponseLog_tx ::
  "reqlog_Response \<Rightarrow> conn \<Rightarrow> (error + reqlog_Response) \<times> conn" where
  "AddResponseLog_tx resLog c1 =
     (case PrepareContext c1 of
        (Inl e, c2) \<Rightarrow> (Inl (Errorf ''sqlite: could not prepare statement'' e), c2)
      | (Inr _, c2) \<Rightarrow>
     (let statusReason = statusReason_of (Status (Response resLog)) in
      case exec_insert_response (RequestID resLog) (res_Proto (Response resLog))
             (StatusCode (Response resLog)) statusReason (res_Body resLog)
             (res_Timestamp resLog) c2 of
        (Inl e, c3) \<Rightarrow> (Inl (Errorf ''sqlite: could not execute statement'' e), c3)
      | (Inr result, c3) \<Rightarrow>
     (case LastInsertId result c3 of
        (Inl e, c4) \<Rightarrow> (Inl (Errorf ''sqlite: could not get last insert ID'' e), c4)
      | (Inr resID, c4) \<Rightarrow>
     (case PrepareContext c4 of
        (Inl e, c5) \<Rightarrow> (Inl (Errorf ''sqlite: could not prepare statement'' e), c5)
      | (Inr _, c5) \<Rightarrow>
     (case insertHeaders Res_id resID (range_Header (res_Header (Response resLog))) c5 of
        (Inl e, c6) \<Rightarrow> (Inl (Errorf ''sqlite: could not insert http headers'' e), c6)
      | (Inr _, c6) \<Rightarrow>
     (case Commit c6 of
        (Inl e, c7) \<Rightarrow> (Inl (Errorf ''sqlite: could not commit transaction'' e), c7)
      | (Inr _, c7) \<Rightarrow> (Inr (resLog\<lparr>res_ID := resID\<rparr>), c7)))))))"

definition AddResponseLog ::
  "int \<Rightarrow> http_Response \<Rightarrow> bytes \<Rightarrow> Time \<Rightarrow> conn \<Rightarrow> (error + reqlog_Response) \<times> conn" where
  "AddResponseLog reqID res body timestamp c =
     (let resLog = \<lparr>res_ID = 0, RequestID = reqID, Response = res, res_Body = body,
                    res_Timestamp = timestamp\<rparr>
      in case BeginTxx c of
           (Inl e, c1) \<Rightarrow> (Inl (Errorf ''sqlite: could not start transaction'' e), c1)
         | (Inr _, c1) \<Rightarrow>
             (let (r, c') = AddResponseLog_tx resLog c1 in (r, Rollback c')))"

section \<open>Read path\<close>

text \<open>
  What SQLite answers to the statements the client builds. A base query reads
  \<^verbatim>\<open>http_requests req\<close>, optionally left-joined with \<^verbatim>\<open>http_responses res\<close>; a result
  column that names the alias \<^verbatim>\<open>res\<close> while the statement has no join cannot be resolved,
  and the statement is refused with \<^verbatim>\<open>no such column\<close>. The only \<^verbatim>\<open>WHERE\<close> the client
  writes on a base query is \<^verbatim>\<open>req.id = ?\<close>, the only \<^verbatim>\<open>ORDER BY\<close> is \<^verbatim>\<open>req.id DESC\<close>.
  Rows of a statement without \<^verbatim>\<open>ORDER BY\<close> come in rowid order (the table scan).
\<close>

type_synonym joined_row = "http_requests_row \<times> http_responses_row option"

definition left_join :: "database \<Rightarrow> http_requests_row \<Rightarrow> joined_row list" where
  "left_join db r =
     (case filter (\<lambda>s. rsp_req_id s = req_id r) (http_responses db) of
        [] \<Rightarrow> [(r, None)]
      | ss \<Rightarrow> map (\<lambda>s. (r, Some s)) ss)"

definition column_name :: "string \<Rightarrow> string" where
  "column_name col = takeWhile (\<lambda>ch. ch \<noteq> CHR '' '') col"

definition unknown_column :: "select_builder \<Rightarrow> string option" where
  "unknown_column b =
     (if Joins b = [] then find (\<lambda>col. take 4 col = ''res.'') (Columns b) else None)"

definition run_select_requests ::
  "select_builder \<Rightarrow> int option list \<Rightarrow> database \<Rightarrow> error + joined_row list" where
  "run_select_requests b args db =
     (case unknown_column b of
        Some col \<Rightarrow> Inl (DriverErr (''no such column: '' @ column_name col))
      | None \<Rightarrow>
          (let matching =
                 (if WhereParts b = [] then http_requests db
                  else (case args of
                          Some i # _ \<Rightarrow> filter (\<lambda>r. req_id r = i) (http_requests db)
                        | _ \<Rightarrow> []));
               ordered = (if OrderBys b = [] then matching else rev (sort_key req_id matching))
           in Inr (concat (map (\<lambda>r. if Joins b = [] then [(r, None)] else left_join db r)
                              ordered))))"

text \<open>
  A header query reads \<^verbatim>\<open>http_headers\<close> with \<^verbatim>\<open>WHERE req_id = ?\<close> or
  \<^verbatim>\<open>WHERE res_id = ?\<close>; each result row lists the values of the selected columns.
\<close>

definition run_select_headers ::
  "select_builder \<Rightarrow> int \<Rightarrow> database \<Rightarrow> error + string list list" where
  "run_select_headers b ownerID db =
     (case find (\<lambda>col. col \<noteq> ''key'' \<and> col \<noteq> ''value'') (Columns b) of
        Some col \<Rightarrow> Inl (DriverErr (''no such column: '' @ column_name col))
      | None \<Rightarrow>
          Inr (map (\<lambda>h. map (\<lambda>col. if col = ''key'' then hdr_key h else hdr_value h) (Columns b))
                 (filter (\<lambda>h. (if WhereParts b = [''req_id = ?''] then hdr_req_id h
                                else hdr_res_id h) = Some ownerID)
                    (http_headers db))))"

definition QueryxContext ::
  "select_builder \<Rightarrow> int option list \<Rightarrow> conn \<Rightarrow> (error + joined_row list) \<times> conn" where
  "QueryxContext sql args c =
     (case driver_call ''query'' c of
        (Inl e, c') \<Rightarrow> (Inl e, c')
      | (Inr _, c') \<Rightarrow> (run_select_requests sql args (store c'), c'))"

definition stmt_QueryContext ::
  "select_builder \<Rightarrow> int \<Rightarrow> conn \<Rightarrow> (error + string list list) \<times> conn" where
  "stmt_QueryContext stmt ownerID c =
     (case driver_call ''query'' c of
        (Inl e, c') \<Rightarrow> (Inl e, c')
      | (Inr _, c') \<Rightarrow> (run_select_headers stmt ownerID (store c'), c'))"

definition rows_Err :: "conn \<Rightarrow> (error + unit) \<times> conn" where
  "rows_Err c = driver_call ''rows'' c"

text \<open>\<^verbatim>\<open>strconv.FormatInt(i, 10)\<close>: the decimal digits of an integer.\<close>

fun decimal :: "nat \<Rightarrow> string" where
  "decimal n =
     (if n < 10 then [char_of (48 + n)] else decimal (n div 10) @ [char_of (48 + n mod 10)])"

declare decimal.simps [simp del]

definition FormatInt :: "int \<Rightarrow> string" where
  "FormatInt i = (if i < 0 then CHR ''-'' # decimal (nat (- i)) else decimal (nat i))"

text \<open>
  \<^verbatim>\<open>rows.Scan(&key, &value)\<close> has two destinations: \<^verbatim>\<open>database/sql\<close> refuses a row with
  another number of columns.
\<close>

definition rows_Scan2 :: "string list \<Rightarrow> error + string \<times> string" where
  "rows_Scan2 row =
     (case row of
        [k, v] \<Rightarrow> Inr (k, v)
      | _ \<Rightarrow> Inl (DriverErr (''sql: expected '' @ decimal (length row) @
                              '' destination arguments in Scan, not 2'')))"

text \<open>
  Modelled from the spec: the row type \<^verbatim>\<open>httpRequest\<close> that \<^verbatim>\<open>StructScan\<close> fills and its
  method \<^verbatim>\<open>toRequestLog\<close> are declared in another file of the package, whose text is
  missing. Following the spec (a record comes back with the fields the projection requested
  populated and the others zero or absent; \<open>id\<close> is always populated; \<open>response\<close> is absent
  until the response half arrives; the status reason is the portion of the status line
  after the code and the single space), a field is filled from the result column of its
  name when that column is selected, and the response is present when the joined
  \<^verbatim>\<open>res_id\<close> is not NULL.
\<close>

record httpRequest =
  dto_ID :: int
  dto_Proto :: string
  dto_URL :: string
  dto_Method :: string
  dto_Body :: bytes
  dto_Timestamp :: Time
  dto_res_ID :: "int option"
  dto_res_RequestID :: "int option"
  dto_res_Proto :: "string option"
  dto_StatusCode :: "int option"
  dto_StatusReason :: "string option"
  dto_res_Body :: "bytes option"
  dto_res_Timestamp :: "Time option"

text \<open>
  Modelled from the spec: how \<^verbatim>\<open>StructScan\<close> fills the absent row type. A field takes
  the value of the result column of its name when the projection selected that column and
  keeps its zero value otherwise; the fields of the response are NULL when the left join
  found no response.
\<close>

definition selected :: "string \<Rightarrow> string list \<Rightarrow> 'a \<Rightarrow> 'a \<Rightarrow> 'a" where
  "selected col cols v zero = (if col \<in> set cols then v else zero)"

definition scan_httpRequest :: "string list \<Rightarrow> joined_row \<Rightarrow> httpRequest" where
  "scan_httpRequest cols row =
     (let (r, s) = row in
      \<lparr>dto_ID = selected ''req.id AS req_id'' cols (req_id r) 0,
       dto_Proto = selected ''req.proto AS req_proto'' cols (req_proto r) [],
       dto_URL = selected ''req.url'' cols (req_url r) [],
       dto_Method = selected ''req.method'' cols (req_method r) [],
       dto_Body = selected ''req.body AS req_body'' cols (req_body r) [],
       dto_Timestamp = selected ''req.timestamp AS req_timestamp'' cols (req_timestamp r) 0,
       dto_res_ID = selected ''res.id AS res_id'' cols (map_option rsp_id s) None,
       dto_res_RequestID = selected ''res.req_id AS res_req_id'' cols (map_option rsp_req_id s) None,
       dto_res_Proto = selected ''res.proto AS res_proto'' cols (map_option rsp_proto s) None,
       dto_StatusCode = selected ''res.status_code'' cols (map_option rsp_status_code s) None,
       dto_StatusReason = selected ''res.status_reason'' cols (map_option rsp_status_reason s) None,
       dto_res_Body = selected ''res.body AS res_body'' cols (map_option rsp_body s) None,
       dto_res_Timestamp =
         selected ''res.timestamp AS res_timestamp'' cols (map_option rsp_timestamp s) None\<rparr>)"

text \<open>
  Modelled from the spec: the absent method \<^verbatim>\<open>toRequestLog\<close> of the row type. The record
  has the request fields of the row and no headers yet; its response is present when
  \<^verbatim>\<open>res_id\<close> is not NULL, with the status line put together from the status code, a
  space and the status reason.
\<close>

definition orZero :: "'a option \<Rightarrow> 'a \<Rightarrow> 'a" where
  "orZero x zero = (case x of None \<Rightarrow> zero | Some v \<Rightarrow> v)"

definition toRequestLog :: "httpRequest \<Rightarrow> reqlog_Request" where
  "toRequestLog dto =
     \<lparr>ID = dto_ID dto,
      Request = \<lparr>Method = dto_Method dto, URL = dto_URL dto, Proto = dto_Proto dto,
                 Header = None\<rparr>,
      Body = dto_Body dto,
      Timestamp = dto_Timestamp dto,
      req_Response =
        (case dto_res_ID dto of
           None \<Rightarrow> None
         | Some resID \<Rightarrow>
             Some \<lparr>res_ID = resID,
                   RequestID = orZero (dto_res_RequestID dto) 0,
                   Response =
                     \<lparr>Status = FormatInt (orZero (dto_StatusCode dto) 0) @ '' '' @
                                orZero (dto_StatusReason dto) [],
                      StatusCode = orZero (dto_StatusCode dto) 0,
                      res_Proto = orZero (dto_res_Proto dto) [],
                      res_Header = None\<rparr>,
                   res_Body = orZero (dto_res_Body dto) [],
                   res_Timestamp = orZero (dto_res_Timestamp dto) 0\<rparr>)\<rparr>"

definition rows_StructScan :: "string list \<Rightarrow> joined_row \<Rightarrow> conn \<Rightarrow> (error + httpRequest) \<times> conn" where
  "rows_StructScan cols row c =
     (case driver_call ''scan'' c of
        (Inl e, c') \<Rightarrow> (Inl e, c')
      | (Inr _, c') \<Rightarrow> (Inr (scan_httpRequest cols row), c'))"

text \<open>\<^verbatim>\<open>findHeaders\<close>: the loop over the rows of the statement, then the function.\<close>

fun findHeaders_rows :: "Header \<Rightarrow> string list list \<Rightarrow> error + Header" where
  "findHeaders_rows headers [] = Inr headers"
| "findHeaders_rows headers (row # rows) =
     (case rows_Scan2 row of
        Inl e \<Rightarrow> Inl (Errorf ''sqlite: could not scan row'' e)
      | Inr (k, v) \<Rightarrow> findHeaders_rows (Header_Add headers k v) rows)"

definition findHeaders :: "select_builder \<Rightarrow> int \<Rightarrow> conn \<Rightarrow> (error + Header) \<times> conn" where
  "findHeaders stmt ownerID c =
     (case stmt_QueryContext stmt ownerID c of
        (Inl e, c1) \<Rightarrow> (Inl (Errorf ''sqlite: could not execute query'' e), c1)
      | (Inr rows, c1) \<Rightarrow>
     (case findHeaders_rows [] rows of
        Inl e \<Rightarrow> (Inl e, c1)
      | Inr headers \<Rightarrow>
     (case rows_Err c1 of
        (Inl e, c2) \<Rightarrow> (Inl (Errorf ''sqlite: could not iterate over rows'' e), c2)
      | (Inr _, c2) \<Rightarrow> (Inr headers, c2))))"

text \<open>
  \<^verbatim>\<open>queryHeaders\<close> writes the headers into the elements of \<^verbatim>\<open>reqLogs\<close>; here it returns
  the updated list. First its two loops over the records.
\<close>

fun reqHeaders_loop ::
  "select_builder \<Rightarrow> reqlog_Request list \<Rightarrow> conn \<Rightarrow> (error + reqlog_Request list) \<times> conn" where
  "reqHeaders_loop stmt [] c = (Inr [], c)"
| "reqHeaders_loop stmt (reqLog # reqLogs) c =
     (case findHeaders stmt (ID reqLog) c of
        (Inl e, c1) \<Rightarrow> (Inl (Errorf ''could not query request headers'' e), c1)
      | (Inr headers, c1) \<Rightarrow>
     (case reqHeaders_loop stmt reqLogs c1 of
        (Inl e, c2) \<Rightarrow> (Inl e, c2)
      | (Inr done, c2) \<Rightarrow>
          (Inr (reqLog\<lparr>Request := (Request reqLog)\<lparr>Header := Some headers\<rparr>\<rparr> # done), c2)))"

fun resHeaders_loop ::
  "select_builder \<Rightarrow> reqlog_Request list \<Rightarrow> conn \<Rightarrow> (error + reqlog_Request list) \<times> conn" where
  "resHeaders_loop stmt [] c = (Inr [], c)"
| "resHeaders_loop stmt (reqLog # reqLogs) c =
     (case req_Response reqLog of
        None \<Rightarrow>
          (case resHeaders_loop stmt reqLogs c of
             (Inl e, c2) \<Rightarrow> (Inl e, c2)
           | (Inr done, c2) \<Rightarrow> (Inr (reqLog # done), c2))
      | Some resLog \<Rightarrow>
     (case findHeaders stmt (res_ID resLog) c of
        (Inl e, c1) \<Rightarrow> (Inl (Errorf ''could not query response headers'' e), c1)
      | (Inr headers, c1) \<Rightarrow>
     (case resHeaders_loop stmt reqLogs c1 of
        (Inl e, c2) \<Rightarrow> (Inl e, c2)
      | (Inr done, c2) \<Rightarrow>
          (Inr (reqLog\<lparr>req_Response :=
                   Some (resLog\<lparr>Response := (Response resLog)\<lparr>res_Header := Some headers\<rparr>\<rparr>)\<rparr>
                # done), c2))))"

text \<open>
  The two halves of \<^verbatim>\<open>queryHeaders\<close> (request headers, response headers) have the same
  shape: when header columns were requested, build the statement, prepare it once and run
  the loop over the records with it. \<open>queryHeaders_part\<close> is that shape; \<open>what\<close> is the
  message of the \<^verbatim>\<open>ToSql\<close> error.
\<close>

definition headers_query :: "string list \<Rightarrow> string \<Rightarrow> select_builder" where
  "headers_query cols wh = sq_Where wh (sq_From ''http_headers'' (sq_Select cols))"

definition queryHeaders_part ::
  "string list \<Rightarrow> string \<Rightarrow> string \<Rightarrow>
   (select_builder \<Rightarrow> reqlog_Request list \<Rightarrow> conn \<Rightarrow> (error + reqlog_Request list) \<times> conn) \<Rightarrow>
   reqlog_Request list \<Rightarrow> conn \<Rightarrow> (error + reqlog_Request list) \<times> conn" where
  "queryHeaders_part cols wh what loop reqLogs c =
     (if length cols > 0
      then (case sq_ToSql (headers_query cols wh) of
              Inl e \<Rightarrow> (Inl (Errorf what e), c)
            | Inr headersQuery \<Rightarrow>
           (case PrepareContext c of
              (Inl e, c1) \<Rightarrow> (Inl (Errorf ''could not prepare statement'' e), c1)
            | (Inr _, c1) \<Rightarrow> loop headersQuery reqLogs c1))
      else (Inr reqLogs, c))"

definition queryHeaders ::
  "httpRequestLogsQuery \<Rightarrow> reqlog_Request list \<Rightarrow> conn \<Rightarrow> (error + reqlog_Request list) \<times> conn" where
  "queryHeaders query reqLogs c =
     (case queryHeaders_part (requestHeaderCols query) ''req_id = ?''
             ''could not parse request headers query'' reqHeaders_loop reqLogs c of
        (Inl e, c1) \<Rightarrow> (Inl e, c1)
      | (Inr reqLogs1, c1) \<Rightarrow>
          queryHeaders_part (responseHeaderCols query) ''res_id = ?''
            ''could not parse response headers query'' resHeaders_loop reqLogs1 c1)"

text \<open>The loop \<^verbatim>\<open>for rows.Next()\<close> of \<^verbatim>\<open>FindRequestLogs\<close>.\<close>

fun scan_rows ::
  "string list \<Rightarrow> reqlog_Request list \<Rightarrow> joined_row list \<Rightarrow> conn \<Rightarrow>
   (error + reqlog_Request list) \<times> conn" where
  "scan_rows cols reqLogs [] c = (Inr reqLogs, c)"
| "scan_rows cols reqLogs (row # rows) c =
     (case rows_StructScan cols row c of
        (Inl e, c') \<Rightarrow> (Inl (Errorf ''sqlite: could not scan row'' e), c')
      | (Inr dto, c') \<Rightarrow> scan_rows cols (reqLogs @ [toRequestLog dto]) rows c')"

text \<open>
  \<^verbatim>\<open>FindRequestLogs\<close>; its parameters \<^verbatim>\<open>opts\<close> and \<^verbatim>\<open>scope\<close> are not used by the
  function. The query is run with the single argument \<^verbatim>\<open>nil\<close>.
\<close>

definition FindRequestLogs :: "field list \<Rightarrow> conn \<Rightarrow> (error + reqlog_Request list) \<times> conn" where
  "FindRequestLogs ctx c =
     (let httpReqLogsQuery = parseHTTPRequestLogsQuery ctx in
      case sq_ToSql (FindRequestLogs_query httpReqLogsQuery) of
        Inl e \<Rightarrow> (Inl (Errorf ''sqlite: could not parse query'' e), c)
      | Inr sql \<Rightarrow>
     (case QueryxContext sql [None] c of
        (Inl e, c1) \<Rightarrow> (Inl (Errorf ''sqlite: could not execute query'' e), c1)
      | (Inr rows, c1) \<Rightarrow>
     (case scan_rows (Columns sql) [] rows c1 of
        (Inl e, c2) \<Rightarrow> (Inl e, c2)
      | (Inr reqLogs, c2) \<Rightarrow>
     (case rows_Err c2 of
        (Inl e, c3) \<Rightarrow> (Inl (Errorf ''sqlite: could not iterate over rows'' e), c3)
      | (Inr _, c3) \<Rightarrow>
     (case queryHeaders httpReqLogsQuery reqLogs c3 of
        (Inl e, c4) \<Rightarrow> (Inl (Errorf ''sqlite: could not query headers'' e), c4)
      | (Inr reqLogs', c4) \<Rightarrow> (Inr reqLogs', c4))))))"

text \<open>
  \<^verbatim>\<open>QueryRowxContext\<close> returns a row that carries the error of the query, if any;
  \<^verbatim>\<open>row.StructScan\<close> reports that error, or \<^verbatim>\<open>sql.ErrNoRows\<close> when the result is empty,
  and otherwise scans the first row.
\<close>

definition Row_StructScan ::
  "string list \<Rightarrow> error + joined_row list \<Rightarrow> conn \<Rightarrow> (error + httpRequest) \<times> conn" where
  "Row_StructScan cols row c =
     (case row of
        Inl e \<Rightarrow> (Inl e, c)
      | Inr [] \<Rightarrow> (Inl ErrNoRows, c)
      | Inr (r # _) \<Rightarrow> rows_StructScan cols r c)"

definition FindRequestLogByID :: "field list \<Rightarrow> int \<Rightarrow> conn \<Rightarrow> (error + reqlog_Request) \<times> conn" where
  "FindRequestLogByID ctx ident c =
     (let httpReqLogsQuery = parseHTTPRequestLogsQuery ctx in
      case sq_ToSql (FindRequestLogByID_query httpReqLogsQuery) of
        Inl e \<Rightarrow> (Inl (Errorf ''sqlite: could not parse query'' e), c)
      | Inr reqSQL \<Rightarrow>
     (let (row, c1) = QueryxContext reqSQL [Some ident] c in
      case Row_StructScan (Columns reqSQL) row c1 of
        (Inl e, c2) \<Rightarrow>
          (if e = ErrNoRows then (Inl ErrRequestNotFound, c2)
           else (Inl (Errorf ''sqlite: could not scan row'' e), c2))
      | (Inr dto, c2) \<Rightarrow>
     (case queryHeaders httpReqLogsQuery [toRequestLog dto] c2 of
        (Inl e, c3) \<Rightarrow> (Inl (Errorf ''sqlite: could not query headers'' e), c3)
      | (Inr reqLogs, c3) \<Rightarrow> (Inr (hd reqLogs), c3))))"

section \<open>Query API: projecting a record\<close>

record HTTPHeader =
  Key :: string
  Value :: string

record HTTPResponseLog =
  rlog_RequestID :: string
  rlog_Proto :: string
  rlog_Status :: string
  rlog_StatusCode :: int
  rlog_Body :: "string option"
  rlog_Headers :: "HTTPHeader list option"

record HTTPRequestLog =
  log_ID :: string
  log_URL :: string
  log_Proto :: string
  log_Method :: string
  log_Timestamp :: Time
  log_Body :: "string option"
  log_Headers :: "HTTPHeader list option"
  log_Response :: "HTTPResponseLog option"

text \<open>
  Modelled from the spec: \<^verbatim>\<open>HTTPMethod.IsValid\<close> belongs to the generated API models,
  whose text is missing. The spec lists the recognized method tokens: GET, HEAD,
  POST, PUT, DELETE, CONNECT, OPTIONS, TRACE, PATCH.
\<close>

definition HTTPMethod_IsValid :: "string \<Rightarrow> bool" where
  "HTTPMethod_IsValid m =
     (m \<in> set [''GET'', ''HEAD'', ''POST'', ''PUT'', ''DELETE'', ''CONNECT'', ''OPTIONS'',
               ''TRACE'', ''PATCH''])"

text \<open>The nested loops that list a header map as (key, value) entries.\<close>

definition header_entries :: "(string \<times> string list) list \<Rightarrow> HTTPHeader list" where
  "header_entries h = concat (map (\<lambda>(k, vs). map (\<lambda>v. \<lparr>Key = k, Value = v\<rparr>) vs) h)"

text \<open>
  \<^verbatim>\<open>parseRequestLog\<close>. The text form of the record id (\<^verbatim>\<open>req.ID.String()\<close>) is a
  parameter.
\<close>

definition parseRequestLog :: "(int \<Rightarrow> string) \<Rightarrow> reqlog_Request \<Rightarrow> error + HTTPRequestLog" where
  "parseRequestLog ID_String req =
     (let meth = Method (Request req) in
      if \<not> HTTPMethod_IsValid meth then Inl (InvalidMethod meth)
      else
        (let log = \<lparr>log_ID = ID_String (ID req), log_URL = URL (Request req),
                    log_Proto = Proto (Request req), log_Method = meth,
                    log_Timestamp = Timestamp req, log_Body = None, log_Headers = None,
                    log_Response = None\<rparr>;
             log1 = (if length (Body req) > 0 then log\<lparr>log_Body := Some (Body req)\<rparr> else log);
             log2 = (case Header (Request req) of
                       None \<Rightarrow> log1
                     | Some h \<Rightarrow> log1\<lparr>log_Headers := Some (header_entries h)\<rparr>);
             log3 =
               (case req_Response req of
                  None \<Rightarrow> log2
                | Some res \<Rightarrow>
                    (let r = \<lparr>rlog_RequestID = ID_String (ID req),
                              rlog_Proto = res_Proto (Response res),
                              rlog_Status = Status (Response res),
                              rlog_StatusCode = StatusCode (Response res),
                              rlog_Body = None, rlog_Headers = None\<rparr>;
                         r1 = (if length (res_Body res) > 0
                               then r\<lparr>rlog_Body := Some (res_Body res)\<rparr> else r);
                         r2 = (case res_Header (Response res) of
                                 None \<Rightarrow> r1
                               | Some h \<Rightarrow> r1\<lparr>rlog_Headers := Some (header_entries h)\<rparr>)
                     in log2\<lparr>log_Response := Some r2\<rparr>))
         in Inr log3))"

section \<open>Descriptions used in the statements\<close>

text \<open>The (key, value) entries of a header map in the order the nested loops visit them.\<close>

definition Header_pairs :: "(string \<times> string list) list \<Rightarrow> (string \<times> string) list" where
  "Header_pairs h = concat (map (\<lambda>(k, vs). map (Pair k) vs) h)"

text \<open>The header rows of one owner, inserted one after the other.\<close>

definition insert_headers :: "owner \<Rightarrow> int \<Rightarrow> (string \<times> string) list \<Rightarrow> database \<Rightarrow> database" where
  "insert_headers col ownerID kvs db = fold (\<lambda>(k, v). insert_header col ownerID k v) kvs db"

text \<open>
  The store after a complete \<^verbatim>\<open>AddRequestLog\<close>, respectively \<^verbatim>\<open>AddResponseLog\<close>: the
  request (response) row and every header row.
\<close>

definition added_request :: "http_Request \<Rightarrow> bytes \<Rightarrow> Time \<Rightarrow> database \<Rightarrow> database" where
  "added_request req body timestamp db =
     (let (reqID, db1) = insert_request (Proto req) (URL req) (Method req) body timestamp db
      in insert_headers Req_id reqID (Header_pairs (range_Header (Header req))) db1)"

definition added_response :: "int \<Rightarrow> http_Response \<Rightarrow> bytes \<Rightarrow> Time \<Rightarrow> database \<Rightarrow> database" where
  "added_response reqID res body timestamp db =
     (let (resID, db1) = insert_response reqID (res_Proto res) (StatusCode res)
                           (statusReason_of (Status res)) body timestamp db
      in insert_headers Res_id resID (Header_pairs (range_Header (res_Header res))) db1)"

text \<open>
  \<open>no_fault n fs\<close>: none of the next \<open>n\<close> driver calls fails; \<open>next_ok fs\<close>: the next one
  does not.
\<close>

definition no_fault :: "nat \<Rightarrow> bool list \<Rightarrow> bool" where
  "no_fault n fs = (True \<notin> set (take n fs))"

definition next_ok :: "bool list \<Rightarrow> bool" where
  "next_ok fs = (case fs of [] \<Rightarrow> True | failed # _ \<Rightarrow> \<not> failed)"

text \<open>The header map \<^verbatim>\<open>findHeaders\<close> builds from (key, value) rows, by \<^verbatim>\<open>Add\<close> in row order.\<close>

definition collect_headers :: "(string \<times> string) list \<Rightarrow> Header" where
  "collect_headers kvs = fold (\<lambda>(k, v) h. Header_Add h k v) kvs []"

definition key_value :: "http_headers_row \<Rightarrow> string \<times> string" where
  "key_value h = (hdr_key h, hdr_value h)"

text \<open>What the planner returns for the full projection (see \<open>fullProjection\<close> below).\<close>

definition fullColumns :: "string list" where
  "fullColumns =
     [''req.id AS req_id'', ''res.id AS res_id'', ''req.url'', ''req.method'',
      ''req.proto AS req_proto'', ''req.body AS req_body'', ''req.timestamp AS req_timestamp'',
      ''res.req_id AS res_req_id'', ''res.proto AS res_proto'', ''res.id AS res_id'',
      ''res.body AS res_body'', ''res.status_code'', ''res.status_reason'',
      ''res.timestamp AS res_timestamp'']"

definition fullQuery :: httpRequestLogsQuery where
  "fullQuery = \<lparr>requestCols = fullColumns, requestHeaderCols = [''key'', ''value''],
      responseHeaderCols = [''key'', ''value''], joinResponse = True\<rparr>"

text \<open>Example inputs.\<close>

definition no_connection_faults :: conn where
  "no_connection_faults = \<lparr>store = empty_database, work = None, faults = []\<rparr>"

definition example_request :: http_Request where
  "example_request =
     \<lparr>Method = ''GET'', URL = ''http://x.test/a'', Proto = ''HTTP/1.1'',
      Header = Some [(''H'', [''1'', ''2''])]\<rparr>"

definition example_response :: http_Response where
  "example_response =
     \<lparr>Status = ''200 OK'', StatusCode = 200, res_Proto = ''HTTP/1.1'',
      res_Header = Some [(''Content-Type'', [''text/plain''])]\<rparr>"

definition fullProjection :: "field list" where
  "fullProjection =
     [Field ''id'' [], Field ''url'' [], Field ''method'' [], Field ''proto'' [],
      Field ''headers'' [Field ''key'' [], Field ''value'' []],
      Field ''body'' [], Field ''timestamp'' [],
      Field ''response''
        [Field ''requestId'' [], Field ''proto'' [],
         Field ''headers'' [Field ''key'' [], Field ''value'' []],
         Field ''body'' [], Field ''statusCode'' [], Field ''statusReason'' [],
         Field ''timestamp'' []]]"



definition brew_request :: http_Request where
  "brew_request =
     \<lparr>Method = ''BREW'', URL = ''http://x.test/pot'', Proto = ''HTTP/1.1'', Header = None\<rparr>"

text \<open>Several requests added one after the other on one connection.\<close>

fun AddRequestLogs :: "(http_Request \<times> bytes \<times> Time) list \<Rightarrow> conn \<Rightarrow> conn" where
  "AddRequestLogs [] c = c"
| "AddRequestLogs ((req, body, timestamp) # rest) c =
     AddRequestLogs rest (snd (AddRequestLog req body timestamp c))"

section \<open>The write path: faults, rollback and the rows written\<close>

lemma no_fault_0 [simp]: "no_fault 0 fs"
  by (simp add: no_fault_def)

lemma no_fault_Suc: "no_fault (Suc n) fs = (next_ok fs \<and> no_fault n (tl fs))"
  by (cases fs) (auto simp: no_fault_def next_ok_def)

lemma no_fault_add: "no_fault (m + n) fs = (no_fault m fs \<and> no_fault n (drop m fs))"
  by (auto simp: no_fault_def take_add)

lemma no_fault_Suc_end: "no_fault (Suc n) fs = (no_fault n fs \<and> next_ok (drop n fs))"
proof -
  have "no_fault (n + Suc 0) fs = (no_fault n fs \<and> no_fault (Suc 0) (drop n fs))"
    by (rule no_fault_add)
  then show ?thesis
    by (simp add: no_fault_Suc)
qed

lemma driver_call_eq:
  "driver_call what c =
     (if \<not> next_ok (faults c) then Inl (DriverErr what) else Inr (), c\<lparr>faults := tl (faults c)\<rparr>)"
  by (cases c) (auto simp: driver_call_def next_ok_def split: list.splits)

lemma parent_exists_insert_header [simp]:
  "parent_exists col oid (insert_header col' oid' k v w) = parent_exists col oid w"
  by (simp add: parent_exists_def insert_header_def)

lemma exec_insert_header_eq:
  assumes "work c = Some w" "parent_exists col oid w"
  shows "exec_insert_header col oid k v c =
     (if \<not> next_ok (faults c) then (Inl (DriverErr ''exec''), c\<lparr>faults := tl (faults c)\<rparr>)
      else (Inr (), c\<lparr>faults := tl (faults c), work := Some (insert_header col oid k v w)\<rparr>))"
  using assms by (simp add: exec_insert_header_def tx_exec_def driver_call_eq)

lemma insertHeaders_values_run:
  assumes "work c = Some w" "parent_exists col oid w"
  shows "(fst (insertHeaders_values col oid k vs c) = Inr ()) = no_fault (length vs) (faults c) \<and>
         (no_fault (length vs) (faults c) \<longrightarrow>
            snd (insertHeaders_values col oid k vs c) =
              c\<lparr>faults := drop (length vs) (faults c),
                work := Some (insert_headers col oid (map (Pair k) vs) w)\<rparr>)"
  using assms
proof (induction vs arbitrary: c w)
  case Nil
  then show ?case by (cases c) (simp add: insert_headers_def)
next
  case (Cons v vs)
  let ?c1 = "c\<lparr>faults := tl (faults c), work := Some (insert_header col oid k v w)\<rparr>"
  have w1: "work ?c1 = Some (insert_header col oid k v w)" by simp
  have p1: "parent_exists col oid (insert_header col oid k v w)" using Cons.prems by simp
  note IH = Cons.IH [OF w1 p1]
  show ?case
  proof (cases "\<not> next_ok (faults c)")
    case True
    then show ?thesis
      using Cons.prems by (simp add: exec_insert_header_eq no_fault_Suc)
  next
    case False
    then show ?thesis
      using Cons.prems IH
      by (simp add: exec_insert_header_eq no_fault_Suc insert_headers_def drop_Suc)
  qed
qed

lemma insert_headers_Nil [simp]: "insert_headers col oid [] w = w"
  by (simp add: insert_headers_def)

lemma insert_headers_Cons [simp]:
  "insert_headers col oid ((k, v) # kvs) w = insert_headers col oid kvs (insert_header col oid k v w)"
  by (simp add: insert_headers_def)

lemma insert_headers_append:
  "insert_headers col oid (xs @ ys) w = insert_headers col oid ys (insert_headers col oid xs w)"
  by (simp add: insert_headers_def)

lemma parent_exists_insert_headers [simp]:
  "parent_exists col oid (insert_headers col' oid' kvs w) = parent_exists col oid w"
proof (induction kvs arbitrary: w)
  case Nil
  show ?case by simp
next
  case (Cons kv kvs)
  show ?case by (cases kv) (simp add: Cons.IH)
qed

lemma insertHeaders_run:
  assumes "work c = Some w" "parent_exists col oid w"
  shows "(fst (insertHeaders col oid h c) = Inr ()) = no_fault (length (Header_pairs h)) (faults c) \<and>
         (no_fault (length (Header_pairs h)) (faults c) \<longrightarrow>
            snd (insertHeaders col oid h c) =
              c\<lparr>faults := drop (length (Header_pairs h)) (faults c),
                work := Some (insert_headers col oid (Header_pairs h) w)\<rparr>)"
  using assms
proof (induction h arbitrary: c w)
  case Nil
  then show ?case by (cases c) (simp add: insert_headers_def Header_pairs_def)
next
  case (Cons kvs h)
  obtain k vs where kvs: "kvs = (k, vs)" by (cases kvs)
  note V = insertHeaders_values_run [OF Cons.prems, of k vs]
  let ?c1 = "c\<lparr>faults := drop (length vs) (faults c),
                work := Some (insert_headers col oid (map (Pair k) vs) w)\<rparr>"
  have w1: "work ?c1 = Some (insert_headers col oid (map (Pair k) vs) w)" by simp
  have p1: "parent_exists col oid (insert_headers col oid (map (Pair k) vs) w)"
    using Cons.prems by simp
  note IH = Cons.IH [OF w1 p1]
  have len: "length (Header_pairs (kvs # h)) = length vs + length (Header_pairs h)"
    by (simp add: kvs Header_pairs_def)
  have pairs: "Header_pairs (kvs # h) = map (Pair k) vs @ Header_pairs h"
    by (simp add: kvs Header_pairs_def)
  obtain r c' where rc: "insertHeaders_values col oid k vs c = (r, c')"
    by (cases "insertHeaders_values col oid k vs c")
  show ?case
  proof (cases "no_fault (length vs) (faults c)")
    case True
    have r: "r = Inr ()" and c': "c' = ?c1"
      using V True by (simp_all add: rc)
    show ?thesis
      using IH True
      by (simp add: kvs rc r c' len[unfolded kvs] no_fault_add pairs[unfolded kvs] insert_headers_append add.commute)
  next
    case False
    have "r \<noteq> Inr ()"
      using V False by (simp add: rc)
    then obtain e where r: "r = Inl e"
      by (cases r) auto
    show ?thesis
      using False by (simp add: kvs rc r len[unfolded kvs] no_fault_add)
  qed
qed

lemma store_driver_call [simp]: "store (snd (driver_call what c)) = store c"
  by (simp add: driver_call_eq)

lemma store_exec_insert_header [simp]: "store (snd (exec_insert_header col oid k v c)) = store c"
  by (simp add: exec_insert_header_def tx_exec_def driver_call_eq split: option.splits prod.splits)

lemma store_insertHeaders_values [simp]:
  "store (snd (insertHeaders_values col oid k vs c)) = store c"
proof (induction vs arbitrary: c)
  case Nil
  show ?case by simp
next
  case (Cons v vs)
  obtain r c1 where e: "exec_insert_header col oid k v c = (r, c1)"
    by (cases "exec_insert_header col oid k v c")
  have "store c1 = store c"
    using store_exec_insert_header [of col oid k v c] by (simp add: e)
  then show ?case
    using Cons.IH [of c1] by (cases r) (simp_all add: e)
qed

lemma store_insertHeaders [simp]: "store (snd (insertHeaders col oid h c)) = store c"
proof (induction h arbitrary: c)
  case Nil
  show ?case by simp
next
  case (Cons kvs h)
  obtain k vs where kvs: "kvs = (k, vs)" by (cases kvs)
  obtain r c1 where e: "insertHeaders_values col oid k vs c = (r, c1)"
    by (cases "insertHeaders_values col oid k vs c")
  have "store c1 = store c"
    using store_insertHeaders_values [of col oid k vs c] by (simp add: e)
  then show ?case
    using Cons.IH [of c1] by (cases r) (simp_all add: e kvs)
qed

lemma no_fault_steps:
  "no_fault (6 + n) fs =
     (next_ok fs \<and> next_ok (tl fs) \<and> next_ok (tl (tl fs)) \<and> next_ok (tl (tl (tl fs))) \<and>
      next_ok (tl (tl (tl (tl fs)))) \<and> no_fault n (tl (tl (tl (tl (tl fs))))) \<and>
      next_ok (drop n (tl (tl (tl (tl (tl fs)))))))"
proof -
  have e: "6 + n = Suc (Suc (Suc (Suc (Suc (Suc n)))))"
    by simp
  show ?thesis
    unfolding e
    apply (subst no_fault_Suc)
    apply (subst no_fault_Suc)
    apply (subst no_fault_Suc)
    apply (subst no_fault_Suc)
    apply (subst no_fault_Suc)
    apply (subst no_fault_Suc_end)
    apply (rule refl)
    done
qed

lemma drop_steps: "tl (drop n (tl (tl (tl (tl (tl fs)))))) = drop (6 + n) fs"
proof -
  have e: "6 + n = Suc (Suc (Suc (Suc (Suc (Suc n)))))"
    by simp
  show ?thesis
    unfolding e by (simp add: drop_Suc tl_drop)
qed

lemma driver_call_ok:
  "next_ok (faults c) \<Longrightarrow> driver_call what c = (Inr (), c\<lparr>faults := tl (faults c)\<rparr>)"
  by (simp add: driver_call_eq)

lemma AddRequestLog_success:
  assumes "no_fault (6 + length (Header_pairs (range_Header (Header req)))) (faults c)"
  shows "AddRequestLog req body timestamp c =
     (Inr \<lparr>ID = next_rowid (map req_id (http_requests (store c))), Request = req, Body = body,
           Timestamp = timestamp, req_Response = None\<rparr>,
      c\<lparr>store := added_request req body timestamp (store c), work := None,
        faults := drop (6 + length (Header_pairs (range_Header (Header req)))) (faults c)\<rparr>)"
proof -
  let ?h = "range_Header (Header req)"
  let ?n = "length (Header_pairs ?h)"
  let ?fs = "faults c"
  let ?fs5 = "tl (tl (tl (tl (tl ?fs))))"
  let ?id = "next_rowid (map req_id (http_requests (store c)))"
  let ?db1 = "(store c)\<lparr>http_requests := http_requests (store c) @
               [\<lparr>req_id = ?id, req_proto = Proto req, req_url = URL req, req_method = Method req,
                 req_body = body, req_timestamp = timestamp\<rparr>]\<rparr>"
  let ?c5 = "c\<lparr>work := Some ?db1, faults := ?fs5\<rparr>"
  let ?c6 = "c\<lparr>work := Some (insert_headers Req_id ?id (Header_pairs ?h) ?db1), faults := drop ?n ?fs5\<rparr>"
  note S = assms [unfolded no_fault_steps]
  have p: "parent_exists Req_id ?id ?db1"
    by (simp add: parent_exists_def)
  have w: "work ?c5 = Some ?db1" by simp
  have nf: "no_fault ?n (faults ?c5)" using S by simp
  note H = insertHeaders_run [OF w p, of ?h]
  have h1: "fst (insertHeaders Req_id ?id ?h ?c5) = Inr ()"
    using H nf by simp
  have h2: "snd (insertHeaders Req_id ?id ?h ?c5) = ?c6"
    using H nf by simp
  have h: "insertHeaders Req_id ?id ?h ?c5 = (Inr (), ?c6)"
    using h1 h2 by (simp add: prod_eq_iff)
  have ins: "insert_request (Proto req) (URL req) (Method req) body timestamp (store c) = (?id, ?db1)"
    by (simp add: insert_request_def Let_def)
  have "AddRequestLog req body timestamp c =
     (Inr \<lparr>ID = ?id, Request = req, Body = body, Timestamp = timestamp, req_Response = None\<rparr>,
      c\<lparr>store := insert_headers Req_id ?id (Header_pairs ?h) ?db1, work := None,
        faults := tl (drop ?n ?fs5)\<rparr>)"
    using S
    by (simp add: AddRequestLog_def AddRequestLog_tx_def BeginTxx_def PrepareContext_def
        exec_insert_request_def tx_exec_def LastInsertId_def Commit_def Rollback_def
        driver_call_ok h ins)
  then show ?thesis
    by (simp add: drop_steps added_request_def ins)
qed

lemma AddRequestLog_failure:
  assumes "\<not> no_fault (6 + length (Header_pairs (range_Header (Header req)))) (faults c)"
    and idle: "work c = None"
  shows "(\<exists>e. fst (AddRequestLog req body timestamp c) = Inl e) \<and>
         store (snd (AddRequestLog req body timestamp c)) = store c \<and>
         work (snd (AddRequestLog req body timestamp c)) = None"
proof -
  let ?h = "range_Header (Header req)"
  let ?n = "length (Header_pairs ?h)"
  let ?fs = "faults c"
  let ?fs5 = "tl (tl (tl (tl (tl ?fs))))"
  let ?id = "next_rowid (map req_id (http_requests (store c)))"
  let ?db1 = "(store c)\<lparr>http_requests := http_requests (store c) @
               [\<lparr>req_id = ?id, req_proto = Proto req, req_url = URL req, req_method = Method req,
                 req_body = body, req_timestamp = timestamp\<rparr>]\<rparr>"
  let ?c5 = "c\<lparr>work := Some ?db1, faults := ?fs5\<rparr>"
  let ?c6 = "c\<lparr>work := Some (insert_headers Req_id ?id (Header_pairs ?h) ?db1), faults := drop ?n ?fs5\<rparr>"
  note defs = AddRequestLog_def AddRequestLog_tx_def BeginTxx_def PrepareContext_def
        exec_insert_request_def tx_exec_def LastInsertId_def Commit_def Rollback_def
  have p: "parent_exists Req_id ?id ?db1"
    by (simp add: parent_exists_def)
  have w: "work ?c5 = Some ?db1" by simp
  note H = insertHeaders_run [OF w p, of ?h]
  have ins: "insert_request (Proto req) (URL req) (Method req) body timestamp (store c) = (?id, ?db1)"
    by (simp add: insert_request_def Let_def)
  note S = assms(1) [unfolded no_fault_steps]
  consider
      (f1) "\<not> next_ok ?fs"
    | (f2) "next_ok ?fs" "\<not> next_ok (tl ?fs)"
    | (f3) "next_ok ?fs" "next_ok (tl ?fs)" "\<not> next_ok (tl (tl ?fs))"
    | (f4) "next_ok ?fs" "next_ok (tl ?fs)" "next_ok (tl (tl ?fs))" "\<not> next_ok (tl (tl (tl ?fs)))"
    | (f5) "next_ok ?fs" "next_ok (tl ?fs)" "next_ok (tl (tl ?fs))" "next_ok (tl (tl (tl ?fs)))"
        "\<not> next_ok (tl (tl (tl (tl ?fs))))"
    | (f6) "next_ok ?fs" "next_ok (tl ?fs)" "next_ok (tl (tl ?fs))" "next_ok (tl (tl (tl ?fs)))"
        "next_ok (tl (tl (tl (tl ?fs))))" "\<not> no_fault ?n ?fs5"
    | (f7) "next_ok ?fs" "next_ok (tl ?fs)" "next_ok (tl (tl ?fs))" "next_ok (tl (tl (tl ?fs)))"
        "next_ok (tl (tl (tl (tl ?fs))))" "no_fault ?n ?fs5" "\<not> next_ok (drop ?n ?fs5)"
    using S by blast
  then show ?thesis
  proof cases
    case f1
    then show ?thesis using idle by (simp add: defs driver_call_eq)
  next
    case f2
    then show ?thesis by (simp add: defs driver_call_eq)
  next
    case f3
    then show ?thesis by (simp add: defs driver_call_eq)
  next
    case f4
    then show ?thesis by (simp add: defs driver_call_eq ins)
  next
    case f5
    then show ?thesis by (simp add: defs driver_call_eq ins)
  next
    case f6
    obtain r c6 where rc: "insertHeaders Req_id ?id ?h ?c5 = (r, c6)"
      by (cases "insertHeaders Req_id ?id ?h ?c5")
    have "r \<noteq> Inr ()"
      using H f6 by (simp add: rc)
    then obtain e where r: "r = Inl e"
      by (cases r) auto
    have st: "store c6 = store c"
      using store_insertHeaders [of Req_id ?id ?h ?c5] by (simp add: rc)
    show ?thesis
      using f6 by (simp add: defs driver_call_eq ins rc r st)
  next
    case f7
    have h1: "fst (insertHeaders Req_id ?id ?h ?c5) = Inr ()"
      using H f7 by simp
    have h2: "snd (insertHeaders Req_id ?id ?h ?c5) = ?c6"
      using H f7 by simp
    have h: "insertHeaders Req_id ?id ?h ?c5 = (Inr (), ?c6)"
      using h1 h2 by (simp add: prod_eq_iff)
    show ?thesis
      using f7 by (simp add: defs driver_call_eq ins h)
  qed
qed

lemma AddResponseLog_success:
  assumes "no_fault (6 + length (Header_pairs (range_Header (res_Header res)))) (faults c)"
    and "reqID \<in> set (map req_id (http_requests (store c)))"
  shows "AddResponseLog reqID res body timestamp c =
     (Inr \<lparr>res_ID = next_rowid (map rsp_id (http_responses (store c))), RequestID = reqID,
           Response = res, res_Body = body, res_Timestamp = timestamp\<rparr>,
      c\<lparr>store := added_response reqID res body timestamp (store c), work := None,
        faults := drop (6 + length (Header_pairs (range_Header (res_Header res)))) (faults c)\<rparr>)"
proof -
  let ?h = "range_Header (res_Header res)"
  let ?n = "length (Header_pairs ?h)"
  let ?fs = "faults c"
  let ?fs5 = "tl (tl (tl (tl (tl ?fs))))"
  let ?id = "next_rowid (map rsp_id (http_responses (store c)))"
  let ?db1 = "(store c)\<lparr>http_responses := http_responses (store c) @
               [\<lparr>rsp_id = ?id, rsp_req_id = reqID, rsp_proto = res_Proto res,
                 rsp_status_code = StatusCode res,
                 rsp_status_reason = statusReason_of (Status res),
                 rsp_body = body, rsp_timestamp = timestamp\<rparr>]\<rparr>"
  let ?c5 = "c\<lparr>work := Some ?db1, faults := ?fs5\<rparr>"
  let ?c6 = "c\<lparr>work := Some (insert_headers Res_id ?id (Header_pairs ?h) ?db1), faults := drop ?n ?fs5\<rparr>"
  note S = assms(1) [unfolded no_fault_steps]
  have p: "parent_exists Res_id ?id ?db1"
    by (simp add: parent_exists_def)
  have w: "work ?c5 = Some ?db1" by simp
  have nf: "no_fault ?n (faults ?c5)" using S by simp
  note H = insertHeaders_run [OF w p, of ?h]
  have h1: "fst (insertHeaders Res_id ?id ?h ?c5) = Inr ()"
    using H nf by simp
  have h2: "snd (insertHeaders Res_id ?id ?h ?c5) = ?c6"
    using H nf by simp
  have h: "insertHeaders Res_id ?id ?h ?c5 = (Inr (), ?c6)"
    using h1 h2 by (simp add: prod_eq_iff)
  have ins: "insert_response reqID (res_Proto res) (StatusCode res) (statusReason_of (Status res))
               body timestamp (store c) = (?id, ?db1)"
    by (simp add: insert_response_def Let_def)
  have "AddResponseLog reqID res body timestamp c =
     (Inr \<lparr>res_ID = ?id, RequestID = reqID, Response = res, res_Body = body,
           res_Timestamp = timestamp\<rparr>,
      c\<lparr>store := insert_headers Res_id ?id (Header_pairs ?h) ?db1, work := None,
        faults := tl (drop ?n ?fs5)\<rparr>)"
    using S assms(2)
    by (simp add: AddResponseLog_def AddResponseLog_tx_def BeginTxx_def PrepareContext_def
        exec_insert_response_def tx_exec_def LastInsertId_def Commit_def Rollback_def
        driver_call_ok h ins)
  then show ?thesis
    by (simp add: drop_steps added_response_def ins)
qed

lemma AddResponseLog_failure:
  assumes "\<not> no_fault (6 + length (Header_pairs (range_Header (res_Header res)))) (faults c) \<or>
           reqID \<notin> set (map req_id (http_requests (store c)))"
    and idle: "work c = None"
  shows "(\<exists>e. fst (AddResponseLog reqID res body timestamp c) = Inl e) \<and>
         store (snd (AddResponseLog reqID res body timestamp c)) = store c \<and>
         work (snd (AddResponseLog reqID res body timestamp c)) = None"
proof -
  let ?h = "range_Header (res_Header res)"
  let ?n = "length (Header_pairs ?h)"
  let ?fs = "faults c"
  let ?fs5 = "tl (tl (tl (tl (tl ?fs))))"
  let ?id = "next_rowid (map rsp_id (http_responses (store c)))"
  let ?db1 = "(store c)\<lparr>http_responses := http_responses (store c) @
               [\<lparr>rsp_id = ?id, rsp_req_id = reqID, rsp_proto = res_Proto res,
                 rsp_status_code = StatusCode res,
                 rsp_status_reason = statusReason_of (Status res),
                 rsp_body = body, rsp_timestamp = timestamp\<rparr>]\<rparr>"
  let ?c5 = "c\<lparr>work := Some ?db1, faults := ?fs5\<rparr>"
  let ?c6 = "c\<lparr>work := Some (insert_headers Res_id ?id (Header_pairs ?h) ?db1), faults := drop ?n ?fs5\<rparr>"
  let ?known = "reqID \<in> set (map req_id (http_requests (store c)))"
  note defs = AddResponseLog_def AddResponseLog_tx_def BeginTxx_def PrepareContext_def
        exec_insert_response_def tx_exec_def LastInsertId_def Commit_def Rollback_def
  have p: "parent_exists Res_id ?id ?db1"
    by (simp add: parent_exists_def)
  have w: "work ?c5 = Some ?db1" by simp
  note H = insertHeaders_run [OF w p, of ?h]
  have ins: "insert_response reqID (res_Proto res) (StatusCode res) (statusReason_of (Status res))
               body timestamp (store c) = (?id, ?db1)"
    by (simp add: insert_response_def Let_def)
  note S = assms(1) [unfolded no_fault_steps]
  consider
      (f1) "\<not> next_ok ?fs"
    | (f2) "next_ok ?fs" "\<not> next_ok (tl ?fs)"
    | (f3) "next_ok ?fs" "next_ok (tl ?fs)" "\<not> next_ok (tl (tl ?fs))"
    | (fk) "next_ok ?fs" "next_ok (tl ?fs)" "next_ok (tl (tl ?fs))" "\<not> ?known"
    | (f4) "next_ok ?fs" "next_ok (tl ?fs)" "next_ok (tl (tl ?fs))" "?known"
        "\<not> next_ok (tl (tl (tl ?fs)))"
    | (f5) "next_ok ?fs" "next_ok (tl ?fs)" "next_ok (tl (tl ?fs))" "?known"
        "next_ok (tl (tl (tl ?fs)))" "\<not> next_ok (tl (tl (tl (tl ?fs))))"
    | (f6) "next_ok ?fs" "next_ok (tl ?fs)" "next_ok (tl (tl ?fs))" "?known"
        "next_ok (tl (tl (tl ?fs)))" "next_ok (tl (tl (tl (tl ?fs))))" "\<not> no_fault ?n ?fs5"
    | (f7) "next_ok ?fs" "next_ok (tl ?fs)" "next_ok (tl (tl ?fs))" "?known"
        "next_ok (tl (tl (tl ?fs)))" "next_ok (tl (tl (tl (tl ?fs))))" "no_fault ?n ?fs5"
        "\<not> next_ok (drop ?n ?fs5)"
    using S by blast
  then show ?thesis
  proof cases
    case f1
    then show ?thesis using idle by (simp add: defs driver_call_eq)
  next
    case f2
    then show ?thesis by (simp add: defs driver_call_eq)
  next
    case f3
    then show ?thesis by (simp add: defs driver_call_eq)
  next
    case fk
    then show ?thesis by (simp add: defs driver_call_eq)
  next
    case f4
    then show ?thesis by (simp add: defs driver_call_eq ins)
  next
    case f5
    then show ?thesis by (simp add: defs driver_call_eq ins)
  next
    case f6
    obtain r c6 where rc: "insertHeaders Res_id ?id ?h ?c5 = (r, c6)"
      by (cases "insertHeaders Res_id ?id ?h ?c5")
    have "r \<noteq> Inr ()"
      using H f6 by (simp add: rc)
    then obtain e where r: "r = Inl e"
      by (cases r) auto
    have st: "store c6 = store c"
      using store_insertHeaders [of Res_id ?id ?h ?c5] by (simp add: rc)
    show ?thesis
      using f6 by (simp add: defs driver_call_eq ins rc r st)
  next
    case f7
    have h1: "fst (insertHeaders Res_id ?id ?h ?c5) = Inr ()"
      using H f7 by simp
    have h2: "snd (insertHeaders Res_id ?id ?h ?c5) = ?c6"
      using H f7 by simp
    have h: "insertHeaders Res_id ?id ?h ?c5 = (Inr (), ?c6)"
      using h1 h2 by (simp add: prod_eq_iff)
    show ?thesis
      using f7 by (simp add: defs driver_call_eq ins h)
  qed
qed

lemma statusReason_of_drop: "statusReason_of status = drop 4 status"
  by (simp add: statusReason_of_def)

lemma http_responses_insert_headers [simp]:
  "http_responses (insert_headers col oid kvs db) = http_responses db"
proof (induction kvs arbitrary: db)
  case Nil
  show ?case by simp
next
  case (Cons kv kvs)
  show ?case by (cases kv) (simp add: Cons.IH insert_header_def)
qed

lemma http_requests_insert_headers [simp]:
  "http_requests (insert_headers col oid kvs db) = http_requests db"
proof (induction kvs arbitrary: db)
  case Nil
  show ?case by simp
next
  case (Cons kv kvs)
  show ?case by (cases kv) (simp add: Cons.IH insert_header_def)
qed

section \<open>The read path without driver faults\<close>

lemma driver_call_quiet: "faults c = [] \<Longrightarrow> driver_call what c = (Inr (), c)"
  by (simp add: driver_call_def)

lemma parse_fullProjection:
  "parseHTTPRequestLogsQuery fullProjection =
     \<lparr>requestCols = fullColumns, requestHeaderCols = [''key'', ''value''],
      responseHeaderCols = [''key'', ''value''], joinResponse = True\<rparr>"
  by (simp add: parseHTTPRequestLogsQuery_def fullProjection_def fullColumns_def
      reqFieldToColumnMap_def resFieldToColumnMap_def headerFieldToColumnMap_def Let_def)




lemma findHeaders_rows_key_value:
  "findHeaders_rows h0 (map (\<lambda>h. [hdr_key h, hdr_value h]) rows) =
     Inr (fold (\<lambda>(k, v) h. Header_Add h k v) (map key_value rows) h0)"
proof (induction rows arbitrary: h0)
  case Nil
  show ?case by simp
next
  case (Cons r rows)
  show ?case by (simp add: Cons.IH rows_Scan2_def key_value_def)
qed

lemma findHeaders_key_value:
  assumes "faults c = []"
  shows "findHeaders (headers_query [''key'', ''value''] wh) ownerID c =
     (Inr (collect_headers (map key_value
        (filter (\<lambda>h. (if wh = ''req_id = ?'' then hdr_req_id h else hdr_res_id h) = Some ownerID)
           (http_headers (store c))))), c)"
  using assms
  by (simp add: findHeaders_def stmt_QueryContext_def driver_call_quiet run_select_headers_def
      headers_query_def sq_Where_def sq_From_def sq_Select_def findHeaders_rows_key_value
      rows_Err_def collect_headers_def)

lemma next_rowid_fresh: "next_rowid ids \<notin> set ids"
proof (cases "ids = []")
  case True
  then show ?thesis by simp
next
  case False
  have "\<forall>i \<in> set ids. i \<le> Max (set ids)"
    by simp
  then have "\<forall>i \<in> set ids. i < next_rowid ids"
    using False by (auto simp: next_rowid_def intro: le_less_trans)
  then show ?thesis by blast
qed

lemma key_value_row [simp]:
  "key_value \<lparr>hdr_id = i, hdr_req_id = a, hdr_res_id = b, hdr_key = k, hdr_value = v\<rparr> = (k, v)"
  by (simp add: key_value_def)

lemma req_headers_insert_headers:
  "map key_value (filter (\<lambda>h. hdr_req_id h = Some oid)
      (http_headers (insert_headers Req_id oid kvs db))) =
   map key_value (filter (\<lambda>h. hdr_req_id h = Some oid) (http_headers db)) @ kvs"
proof (induction kvs arbitrary: db)
  case Nil
  show ?case by simp
next
  case (Cons kv kvs)
  show ?case
    by (cases kv) (simp add: Cons.IH insert_header_def)
qed


lemma no_headers_of_fresh_request:
  assumes "foreign_keys_ok db"
  shows "filter (\<lambda>h. hdr_req_id h = Some (next_rowid (map req_id (http_requests db)))) (http_headers db) = []"
proof -
  have "\<forall>h \<in> set (http_headers db). hdr_req_id h \<noteq> Some (next_rowid (map req_id (http_requests db)))"
  proof
    fix h assume h: "h \<in> set (http_headers db)"
    show "hdr_req_id h \<noteq> Some (next_rowid (map req_id (http_requests db)))"
    proof
      assume e: "hdr_req_id h = Some (next_rowid (map req_id (http_requests db)))"
      from assms h have "case hdr_req_id h of None \<Rightarrow> True
                      | Some i \<Rightarrow> i \<in> set (map req_id (http_requests db))"
        by (auto simp: foreign_keys_ok_def list_all_iff)
      with e have "next_rowid (map req_id (http_requests db)) \<in> set (map req_id (http_requests db))"
        by simp
      with next_rowid_fresh show False by blast
    qed
  qed
  then show ?thesis
    by (simp add: filter_empty_conv)
qed


lemma no_response_of_fresh_request:
  assumes "foreign_keys_ok db"
  shows "filter (\<lambda>s. rsp_req_id s = next_rowid (map req_id (http_requests db))) (http_responses db) = []"
proof -
  have "\<forall>s \<in> set (http_responses db). rsp_req_id s \<in> set (map req_id (http_requests db))"
    using assms by (auto simp: foreign_keys_ok_def list_all_iff)
  then have "\<forall>s \<in> set (http_responses db). rsp_req_id s \<noteq> next_rowid (map req_id (http_requests db))"
    using next_rowid_fresh [of "map req_id (http_requests db)"] by metis
  then show ?thesis
    by (simp add: filter_empty_conv)
qed

lemma headers_of_added_request:
  assumes "foreign_keys_ok db"
  shows "map key_value (filter (\<lambda>h. hdr_req_id h = Some (next_rowid (map req_id (http_requests db))))
           (http_headers (added_request req body timestamp db))) =
         Header_pairs (range_Header (Header req))"
  using req_headers_insert_headers [of "next_rowid (map req_id (http_requests db))"
      "Header_pairs (range_Header (Header req))"
      "snd (insert_request (Proto req) (URL req) (Method req) body timestamp db)"]
    no_headers_of_fresh_request [OF assms]
  by (simp add: added_request_def insert_request_def Let_def)


lemma FindRequestLogByID_query_full:
  "FindRequestLogByID_query fullQuery =
     \<lparr>Columns = fullColumns, From = ''http_requests req'',
      Joins = [''http_responses res ON req.id = res.req_id''],
      WhereParts = [''req.id = ?''], OrderBys = []\<rparr>"
  by (simp add: FindRequestLogByID_query_def fullQuery_def sq_Select_def sq_From_def sq_Where_def
      sq_LeftJoin_def Let_def)

lemma run_select_by_id:
  "run_select_requests
     \<lparr>Columns = cols, From = ''http_requests req'',
      Joins = [''http_responses res ON req.id = res.req_id''],
      WhereParts = [''req.id = ?''], OrderBys = []\<rparr> [Some ident] db =
   Inr (concat (map (left_join db) (filter (\<lambda>r. req_id r = ident) (http_requests db))))"
  by (simp add: run_select_requests_def unknown_column_def)

lemma toRequestLog_full_no_response:
  "toRequestLog (scan_httpRequest fullColumns (r, None)) =
     \<lparr>ID = req_id r,
      Request = \<lparr>Method = req_method r, URL = req_url r, Proto = req_proto r, Header = None\<rparr>,
      Body = req_body r, Timestamp = req_timestamp r, req_Response = None\<rparr>"
  by (simp add: scan_httpRequest_def selected_def fullColumns_def toRequestLog_def)

lemma queryHeaders_full_no_response:
  assumes "faults c = []" and "req_Response reqLog = None"
  shows "queryHeaders fullQuery [reqLog] c =
     (Inr [reqLog\<lparr>Request := (Request reqLog)\<lparr>Header :=
              Some (collect_headers (map key_value
                (filter (\<lambda>h. hdr_req_id h = Some (ID reqLog)) (http_headers (store c)))))\<rparr>\<rparr>], c)"
  using assms
  by (simp add: queryHeaders_def queryHeaders_part_def fullQuery_def sq_ToSql_def
      PrepareContext_def driver_call_quiet findHeaders_key_value
      headers_query_def [symmetric])
     (simp add: headers_query_def sq_Where_def sq_From_def sq_Select_def)

lemma FindRequestLogByID_full_no_response:
  assumes "faults c = []"
    and "filter (\<lambda>r. req_id r = ident) (http_requests (store c)) = r # others"
    and "filter (\<lambda>s. rsp_req_id s = ident) (http_responses (store c)) = []"
  shows "FindRequestLogByID fullProjection ident c =
     (Inr \<lparr>ID = ident,
           Request = \<lparr>Method = req_method r, URL = req_url r, Proto = req_proto r,
                      Header = Some (collect_headers (map key_value
                         (filter (\<lambda>h. hdr_req_id h = Some ident) (http_headers (store c)))))\<rparr>,
           Body = req_body r, Timestamp = req_timestamp r, req_Response = None\<rparr>, c)"
proof -
  have rid: "req_id r = ident"
    using assms(2) by (metis (mono_tags, lifting) filter_eq_ConsD)
  have lj: "left_join (store c) r = [(r, None)]"
    using assms(3) by (simp add: left_join_def rid)
  have cols: "fullColumns \<noteq> []"
    by (simp add: fullColumns_def)
  let ?rec = "\<lparr>ID = ident,
      Request = \<lparr>Method = req_method r, URL = req_url r, Proto = req_proto r, Header = None\<rparr>,
      Body = req_body r, Timestamp = req_timestamp r, req_Response = None\<rparr>"
  have qh: "queryHeaders fullQuery [?rec] c =
     (Inr [?rec\<lparr>Request := (Request ?rec)\<lparr>Header :=
              Some (collect_headers (map key_value
                (filter (\<lambda>h. hdr_req_id h = Some (ID ?rec)) (http_headers (store c)))))\<rparr>\<rparr>], c)"
    by (rule queryHeaders_full_no_response [OF assms(1)]) simp
  show ?thesis
    using assms(1)
    by (simp add: FindRequestLogByID_def parse_fullProjection fullQuery_def [symmetric]
        FindRequestLogByID_query_full sq_ToSql_def cols QueryxContext_def driver_call_quiet
        run_select_by_id assms(2) lj Row_StructScan_def rows_StructScan_def
        toRequestLog_full_no_response qh rid)
qed

lemma FindRequestLogByID_after_AddRequestLog:
  assumes "AddRequestLog req body timestamp c = (Inr reqLog, c')"
    and "work c = None"
    and "faults c' = []"
    and "foreign_keys_ok (store c)"
  shows "FindRequestLogByID fullProjection (ID reqLog) c' =
     (Inr (reqLog\<lparr>Request := (Request reqLog)\<lparr>Header :=
            Some (collect_headers (Header_pairs (range_Header (Header req))))\<rparr>\<rparr>), c')"
proof -
  let ?ok = "no_fault (6 + length (Header_pairs (range_Header (Header req)))) (faults c)"
  let ?id = "next_rowid (map req_id (http_requests (store c)))"
  let ?row = "\<lparr>req_id = ?id, req_proto = Proto req, req_url = URL req, req_method = Method req,
               req_body = body, req_timestamp = timestamp\<rparr>"
  have ok: ?ok
  proof (rule ccontr)
    assume "\<not> ?ok"
    from AddRequestLog_failure [OF this assms(2), of body timestamp]
    show False by (simp add: assms(1))
  qed
  from assms(1) have reqLog: "reqLog = \<lparr>ID = ?id, Request = req, Body = body, Timestamp = timestamp,
                    req_Response = None\<rparr>"
    and st: "store c' = added_request req body timestamp (store c)"
    by (auto simp: AddRequestLog_success [OF ok])
  have reqs: "http_requests (store c') = http_requests (store c) @ [?row]"
    by (simp add: st added_request_def insert_request_def Let_def)
  have old: "filter (\<lambda>r. req_id r = ?id) (http_requests (store c)) = []"
    using next_rowid_fresh [of "map req_id (http_requests (store c))"]
    by (force simp: filter_empty_conv)
  have f1: "filter (\<lambda>r. req_id r = ?id) (http_requests (store c')) = [?row]"
    by (simp add: reqs old)
  have f2: "filter (\<lambda>s. rsp_req_id s = ?id) (http_responses (store c')) = []"
    using no_response_of_fresh_request [OF assms(4)]
    by (simp add: st added_request_def insert_request_def Let_def)
  have hs: "map key_value (filter (\<lambda>h. hdr_req_id h = Some ?id) (http_headers (store c'))) =
            Header_pairs (range_Header (Header req))"
    using headers_of_added_request [OF assms(4)] by (simp add: st)
  show ?thesis
    using FindRequestLogByID_full_no_response [OF assms(3) f1 f2]
    by (simp add: reqLog hs)
qed






lemma decimal_1: "decimal 1 = ''1''"
  by code_simp

lemma after_example_request:
  "AddRequestLog example_request body timestamp no_connection_faults =
     (Inr \<lparr>ID = 1, Request = example_request, Body = body, Timestamp = timestamp,
           req_Response = None\<rparr>,
      \<lparr>store = \<lparr>http_requests =
                   [\<lparr>req_id = 1, req_proto = ''HTTP/1.1'', req_url = ''http://x.test/a'',
                     req_method = ''GET'', req_body = body, req_timestamp = timestamp\<rparr>],
                 http_responses = [],
                 http_headers =
                   [\<lparr>hdr_id = 1, hdr_req_id = Some 1, hdr_res_id = None, hdr_key = ''H'',
                     hdr_value = ''1''\<rparr>,
                    \<lparr>hdr_id = 2, hdr_req_id = Some 1, hdr_res_id = None, hdr_key = ''H'',
                     hdr_value = ''2''\<rparr>]\<rparr>,
       work = None, faults = []\<rparr>)"
  by (simp add: AddRequestLog_success no_connection_faults_def no_fault_def example_request_def
      added_request_def insert_request_def insert_headers_def insert_header_def Header_pairs_def
      range_Header_def next_rowid_def empty_database_def Let_def)

lemma foreign_keys_ok_empty: "foreign_keys_ok empty_database"
  by (simp add: foreign_keys_ok_def empty_database_def)






section \<open>What the planner selects\<close>

text \<open>
  The join flag is set exactly when the projection selects the \<open>response\<close> field, and the
  base queries carry the join exactly when the flag is set; \<^verbatim>\<open>req.id\<close> is always among
  the columns, and so is \<^verbatim>\<open>res.id\<close>, whatever the projection.
\<close>

lemma requestCols_reqFields_loop:
  "x \<in> set (requestCols q) \<Longrightarrow> x \<in> set (requestCols (reqFields_loop q reqFields))"
proof (induction reqFields arbitrary: q)
  case Nil
  then show ?case by simp
next
  case (Cons f fs)
  have res: "\<And>cols rh sel. x \<in> set cols \<Longrightarrow> x \<in> set (fst (resFields_loop (cols, rh) sel))"
  proof -
    fix cols rh sel
    show "x \<in> set cols \<Longrightarrow> x \<in> set (fst (resFields_loop (cols, rh) sel))"
      by (induction sel arbitrary: cols rh) (auto simp: Let_def split: option.splits)
  qed
  let ?q1 = "(case reqFieldToColumnMap (Name f) of
                  Some col \<Rightarrow> q\<lparr>requestCols := requestCols q @ [''req.'' @ col]\<rparr>
                | None \<Rightarrow> q)"
  let ?q2 = "(if Name f = ''headers''
                then ?q1\<lparr>requestHeaderCols :=
                          headerFields_loop (requestHeaderCols ?q1) (Selections f)\<rparr>
                else ?q1)"
  let ?q3 = "(if Name f = ''response''
                then (let (reqCols, resHeaderCols) =
                            resFields_loop (requestCols ?q2, responseHeaderCols ?q2)
                              (Selections f)
                      in ?q2\<lparr>joinResponse := True, requestCols := reqCols,
                            responseHeaderCols := resHeaderCols\<rparr>)
                else ?q2)"
  have e: "reqFields_loop q (f # fs) = reqFields_loop ?q3 fs"
    by (simp add: Let_def)
  have 1: "x \<in> set (requestCols ?q1)"
    using Cons.prems by (simp split: option.splits)
  have 2: "x \<in> set (requestCols ?q2)"
    using 1 by auto
  have 3: "x \<in> set (requestCols ?q3)"
    using 2 res [of "requestCols ?q2" "responseHeaderCols ?q2" "Selections f"]
    by (auto simp: split_beta)
  show ?case
    unfolding e by (rule Cons.IH [OF 3])
qed

lemma req_id_always_selected:
  "''req.id AS req_id'' \<in> set (requestCols (parseHTTPRequestLogsQuery ctx))"
  by (simp add: parseHTTPRequestLogsQuery_def requestCols_reqFields_loop)

lemma res_id_always_selected:
  "''res.id AS res_id'' \<in> set (requestCols (parseHTTPRequestLogsQuery ctx))"
  by (simp add: parseHTTPRequestLogsQuery_def requestCols_reqFields_loop)

lemma joinResponse_reqFields_loop:
  "joinResponse (reqFields_loop q reqFields) =
     (joinResponse q \<or> ''response'' \<in> Name ` set reqFields)"
proof (induction reqFields arbitrary: q)
  case Nil
  show ?case by simp
next
  case (Cons f fs)
  show ?case
    by (auto simp: Cons.IH Let_def split_beta split: option.splits)
qed

lemma joinResponse_iff:
  "joinResponse (parseHTTPRequestLogsQuery ctx) = (''response'' \<in> Name ` set ctx)"
  by (simp add: parseHTTPRequestLogsQuery_def joinResponse_reqFields_loop)

lemma Joins_FindRequestLogs_query:
  "Joins (FindRequestLogs_query q) =
     (if joinResponse q then [''http_responses res ON req.id = res.req_id''] else [])"
  by (simp add: FindRequestLogs_query_def sq_Select_def sq_From_def sq_OrderBy_def
      sq_LeftJoin_def Let_def)

lemma Joins_FindRequestLogByID_query:
  "Joins (FindRequestLogByID_query q) =
     (if joinResponse q then [''http_responses res ON req.id = res.req_id''] else [])"
  by (simp add: FindRequestLogByID_query_def sq_Select_def sq_From_def sq_Where_def
      sq_LeftJoin_def Let_def)

section \<open>Not found\<close>

text \<open>
  When the projection selects the \<open>response\<close> field, so that the base query carries the
  join, \<^verbatim>\<open>FindRequestLogByID\<close> without driver faults returns \<^verbatim>\<open>ErrRequestNotFound\<close>
  exactly when the store has no request with the given id.
\<close>

lemma left_join_not_empty: "left_join db r \<noteq> []"
  by (simp add: left_join_def split: list.splits)

lemma FindRequestLogByID_NotFound_iff:
  assumes "faults c = []" and "''response'' \<in> Name ` set ctx"
  shows "(fst (FindRequestLogByID ctx ident c) = Inl ErrRequestNotFound) =
         (ident \<notin> req_id ` set (http_requests (store c)))"
proof -
  let ?q = "parseHTTPRequestLogsQuery ctx"
  let ?sql = "\<lparr>Columns = requestCols ?q, From = ''http_requests req'',
      Joins = [''http_responses res ON req.id = res.req_id''],
      WhereParts = [''req.id = ?''], OrderBys = []\<rparr>"
  let ?found = "filter (\<lambda>r. req_id r = ident) (http_requests (store c))"
  have j: "joinResponse ?q"
    using assms(2) by (simp add: joinResponse_iff)
  have sql: "FindRequestLogByID_query ?q = ?sql"
    using j by (simp add: FindRequestLogByID_query_def sq_Select_def sq_From_def sq_Where_def
        sq_LeftJoin_def Let_def)
  have cols: "requestCols ?q \<noteq> []"
    using req_id_always_selected [of ctx] by auto
  have run: "QueryxContext ?sql [Some ident] c =
               (Inr (concat (map (left_join (store c)) ?found)), c)"
    using assms(1) by (simp add: QueryxContext_def driver_call_quiet run_select_by_id)
  show ?thesis
  proof (cases ?found)
    case Nil
    then have "ident \<notin> req_id ` set (http_requests (store c))"
      by (auto simp: filter_empty_conv)
    moreover have "fst (FindRequestLogByID ctx ident c) = Inl ErrRequestNotFound"
      by (simp add: FindRequestLogByID_def Let_def sql sq_ToSql_def cols run Nil
          Row_StructScan_def)
    ultimately show ?thesis by simp
  next
    case (Cons r rs)
    then have "r \<in> set ?found" by simp
    then have here: "ident \<in> req_id ` set (http_requests (store c))"
      by auto
    obtain x xs where lj: "left_join (store c) r = x # xs"
      using left_join_not_empty [of "store c" r] by (cases "left_join (store c) r") auto
    obtain res c3 where qh: "queryHeaders ?q [toRequestLog (scan_httpRequest (requestCols ?q) x)] c = (res, c3)"
      by (cases "queryHeaders ?q [toRequestLog (scan_httpRequest (requestCols ?q) x)] c")
    have "fst (FindRequestLogByID ctx ident c) \<noteq> Inl ErrRequestNotFound"
      using assms(1)
      by (cases res)
         (simp_all add: FindRequestLogByID_def Let_def sql sq_ToSql_def cols run Cons lj
          Row_StructScan_def rows_StructScan_def driver_call_quiet qh)
    with here show ?thesis by simp
  qed
qed

section \<open>Descending ids\<close>

text \<open>
  Under the full projection, without driver faults and when no request has two
  responses, \<^verbatim>\<open>FindRequestLogs\<close> returns one record per request, by descending id. In
  particular, after \<open>N\<close> requests were added to an empty store it returns the ids
  \<open>N, \<dots>, 1\<close>.
\<close>

lemma FindRequestLogs_query_full:
  "FindRequestLogs_query fullQuery =
     \<lparr>Columns = fullColumns, From = ''http_requests req'',
      Joins = [''http_responses res ON req.id = res.req_id''],
      WhereParts = [], OrderBys = [''req.id DESC'']\<rparr>"
  by (simp add: FindRequestLogs_query_def fullQuery_def sq_Select_def sq_From_def sq_OrderBy_def
      sq_LeftJoin_def Let_def)

lemma run_select_all:
  "run_select_requests
     \<lparr>Columns = cols, From = ''http_requests req'',
      Joins = [''http_responses res ON req.id = res.req_id''],
      WhereParts = [], OrderBys = [''req.id DESC'']\<rparr> args db =
   Inr (concat (map (left_join db) (rev (sort_key req_id (http_requests db)))))"
  by (simp add: run_select_requests_def unknown_column_def)

lemma scan_rows_quiet:
  assumes "faults c = []"
  shows "scan_rows cols reqLogs rows c =
     (Inr (reqLogs @ map (\<lambda>row. toRequestLog (scan_httpRequest cols row)) rows), c)"
  using assms
  by (induction rows arbitrary: reqLogs) (simp_all add: rows_StructScan_def driver_call_quiet)

lemma ID_toRequestLog_full [simp]:
  "ID (toRequestLog (scan_httpRequest fullColumns row)) = req_id (fst row)"
  by (cases row) (simp add: toRequestLog_def scan_httpRequest_def selected_def fullColumns_def)

lemma reqHeaders_loop_quiet:
  assumes "faults c = []"
  shows "\<exists>done. reqHeaders_loop (headers_query [''key'', ''value''] wh) reqLogs c = (Inr done, c) \<and>
               map ID done = map ID reqLogs"
proof (induction reqLogs)
  case Nil
  show ?case by simp
next
  case (Cons reqLog reqLogs)
  then obtain rest where
    "reqHeaders_loop (headers_query [''key'', ''value''] wh) reqLogs c = (Inr rest, c)"
    "map ID rest = map ID reqLogs"
    by blast
  then show ?case
    by (simp add: findHeaders_key_value [OF assms])
qed

lemma resHeaders_loop_quiet:
  assumes "faults c = []"
  shows "\<exists>done. resHeaders_loop (headers_query [''key'', ''value''] wh) reqLogs c = (Inr done, c) \<and>
               map ID done = map ID reqLogs"
proof (induction reqLogs)
  case Nil
  show ?case by simp
next
  case (Cons reqLog reqLogs)
  then obtain rest where
    "resHeaders_loop (headers_query [''key'', ''value''] wh) reqLogs c = (Inr rest, c)"
    "map ID rest = map ID reqLogs"
    by blast
  then show ?case
    by (cases "req_Response reqLog") (simp_all add: findHeaders_key_value [OF assms])
qed

lemma queryHeaders_full_quiet:
  assumes "faults c = []"
  shows "\<exists>done. queryHeaders fullQuery reqLogs c = (Inr done, c) \<and> map ID done = map ID reqLogs"
proof -
  obtain l1 where
    1: "reqHeaders_loop (headers_query [''key'', ''value''] ''req_id = ?'') reqLogs c = (Inr l1, c)"
    and i1: "map ID l1 = map ID reqLogs"
    using reqHeaders_loop_quiet [OF assms] by blast
  obtain l2 where
    2: "resHeaders_loop (headers_query [''key'', ''value''] ''res_id = ?'') l1 c = (Inr l2, c)"
    and i2: "map ID l2 = map ID l1"
    using resHeaders_loop_quiet [OF assms] by blast
  have nonempty: "headers_query [''key'', ''value''] wh \<noteq> headers_query [] wh" for wh
    by (simp add: headers_query_def sq_Where_def sq_From_def sq_Select_def)
  have tosql: "sq_ToSql (headers_query [''key'', ''value''] wh) = Inr (headers_query [''key'', ''value''] wh)" for wh
    by (simp add: sq_ToSql_def headers_query_def sq_Where_def sq_From_def sq_Select_def)
  have "queryHeaders fullQuery reqLogs c = (Inr l2, c)"
    using assms
    by (simp add: queryHeaders_def queryHeaders_part_def fullQuery_def tosql PrepareContext_def
        driver_call_quiet 1 2)
  with i1 i2 show ?thesis by simp
qed

lemma at_most_one_match:
  assumes "distinct (map f xs)"
  shows "length (filter (\<lambda>x. f x = a) xs) \<le> 1"
  using assms
proof (induction xs)
  case Nil
  show ?case by simp
next
  case (Cons x xs)
  show ?case
  proof (cases "f x = a")
    case True
    have "f x \<notin> f ` set xs"
      using Cons.prems by simp
    then have "\<forall>y \<in> set xs. f y \<noteq> a"
      using True by blast
    then have "filter (\<lambda>y. f y = a) xs = []"
      by (simp add: filter_empty_conv)
    then show ?thesis using True by simp
  next
    case False
    then show ?thesis using Cons by simp
  qed
qed

lemma map_insort_key: "map f (insort_key f x xs) = insort (f x) (map f xs)"
  by (induction xs) simp_all

lemma map_sort_key: "map f (sort_key f xs) = sort (map f xs)"
  by (induction xs) (simp_all add: map_insort_key)

lemma left_join_single:
  assumes "distinct (map rsp_req_id (http_responses db))"
  shows "map fst (left_join db r) = [r]"
proof -
  have "length (filter (\<lambda>s. rsp_req_id s = req_id r) (http_responses db)) \<le> 1"
    by (rule at_most_one_match [OF assms])
  then show ?thesis
    by (cases "filter (\<lambda>s. rsp_req_id s = req_id r) (http_responses db)")
       (auto simp: left_join_def)
qed

lemma joined_rows_requests:
  assumes "distinct (map rsp_req_id (http_responses db))"
  shows "map fst (concat (map (left_join db) rs)) = rs"
  by (induction rs) (simp_all add: left_join_single [OF assms])

lemma FindRequestLogs_full_descending:
  assumes "faults c = []"
    and "distinct (map rsp_req_id (http_responses (store c)))"
  shows "\<exists>reqLogs. FindRequestLogs fullProjection c = (Inr reqLogs, c) \<and>
           map ID reqLogs = rev (sort (map req_id (http_requests (store c))))"
proof -
  let ?rows = "concat (map (left_join (store c)) (rev (sort_key req_id (http_requests (store c)))))"
  let ?logs = "map (\<lambda>row. toRequestLog (scan_httpRequest fullColumns row)) ?rows"
  have cols: "fullColumns \<noteq> []"
    by (simp add: fullColumns_def)
  obtain found where
    q: "queryHeaders fullQuery ?logs c = (Inr found, c)" and i: "map ID found = map ID ?logs"
    using queryHeaders_full_quiet [OF assms(1)] by blast
  have ids: "map ID ?logs = map req_id (map fst ?rows)"
    by (simp add: comp_def)
  have "FindRequestLogs fullProjection c = (Inr found, c)"
    using assms(1)
    by (simp add: FindRequestLogs_def parse_fullProjection fullQuery_def [symmetric]
        FindRequestLogs_query_full sq_ToSql_def cols QueryxContext_def driver_call_quiet
        run_select_all scan_rows_quiet rows_Err_def q)
  moreover have "map ID found = rev (sort (map req_id (http_requests (store c))))"
    by (simp only: i ids joined_rows_requests [OF assms(2)]) (simp add: rev_map [symmetric] map_sort_key)
  ultimately show ?thesis by blast
qed

lemma rev_sort_strictly_descending:
  assumes "distinct (xs :: int list)"
  shows "sorted_wrt (>) (rev (sort xs))"
proof -
  have "sorted_wrt (<) (sort xs)"
    using assms by (simp add: strict_sorted_iff)
  then show ?thesis
    by (simp add: sorted_wrt_rev)
qed

lemma Max_first_ids: "Max (set (map int [1..<Suc (Suc k)])) = int (Suc k)"
proof (induction k)
  case 0
  show ?case by simp
next
  case (Suc k)
  have "set (map int [1..<Suc (Suc (Suc k))]) = insert (int (Suc (Suc k))) (set (map int [1..<Suc (Suc k)]))"
    by auto
  then show ?case
    using Suc by (simp del: upt_Suc set_map set_upt of_nat_Suc)
qed

lemma next_rowid_first_ids: "next_rowid (map int [1..<Suc k]) = int (Suc k)"
proof (cases k)
  case 0
  then show ?thesis by (simp add: next_rowid_def)
next
  case (Suc j)
  have "map int [1..<Suc (Suc j)] \<noteq> []" by simp
  then show ?thesis
    unfolding Suc next_rowid_def using Max_first_ids [of j] by (simp del: upt_Suc)
qed

lemma AddRequestLogs_ids:
  assumes "faults c = []"
    and "map req_id (http_requests (store c)) = map int [1..<Suc k]"
    and "http_responses (store c) = []"
  shows "faults (AddRequestLogs xs c) = [] \<and>
         map req_id (http_requests (store (AddRequestLogs xs c))) = map int [1..<Suc (k + length xs)] \<and>
         http_responses (store (AddRequestLogs xs c)) = []"
  using assms
proof (induction xs arbitrary: c k)
  case Nil
  then show ?case by simp
next
  case (Cons x xs)
  obtain req body timestamp where x: "x = (req, body, timestamp)"
    by (cases x)
  let ?c1 = "snd (AddRequestLog req body timestamp c)"
  have nf: "no_fault (6 + length (Header_pairs (range_Header (Header req)))) (faults c)"
    using Cons.prems(1) by (simp add: no_fault_def)
  note s = AddRequestLog_success [OF nf, of body timestamp]
  have 1: "faults ?c1 = []"
    using Cons.prems(1) by (simp add: s)
  have 2: "map req_id (http_requests (store ?c1)) = map int [1..<Suc (Suc k)]"
    using Cons.prems(2) next_rowid_first_ids [of k]
    by (simp add: s added_request_def insert_request_def Let_def)
  have 3: "http_responses (store ?c1) = []"
    using Cons.prems(3) by (simp add: s added_request_def insert_request_def Let_def)
  from Cons.IH [OF 1 2 3] show ?case
    by (simp add: x)
qed

lemma sorted_first_ids: "sorted (map int [1..<n])"
  by (induction n) (auto simp: sorted_append)

lemma FindRequestLogs_full_after_inserts:
  "\<exists>reqLogs.
     FindRequestLogs fullProjection (AddRequestLogs xs no_connection_faults) =
       (Inr reqLogs, AddRequestLogs xs no_connection_faults) \<and>
     map ID reqLogs = rev (map int [1..<Suc (length xs)])"
proof -
  let ?c = "AddRequestLogs xs no_connection_faults"
  have "faults no_connection_faults = []"
    "map req_id (http_requests (store no_connection_faults)) = map int [1..<Suc 0]"
    "http_responses (store no_connection_faults) = []"
    by (simp_all add: no_connection_faults_def empty_database_def)
  from AddRequestLogs_ids [OF this, of xs]
  have f: "faults ?c = []"
    and ids: "map req_id (http_requests (store ?c)) = map int [1..<Suc (length xs)]"
    and none: "http_responses (store ?c) = []"
    by simp_all
  have d: "distinct (map rsp_req_id (http_responses (store ?c)))"
    by (simp add: none)
  have "sort (map int [1..<Suc (length xs)]) = map int [1..<Suc (length xs)]"
    using sorted_first_ids [of "Suc (length xs)"] by (simp add: sort_key_id_if_sorted del: upt_Suc)
  with FindRequestLogs_full_descending [OF f d] ids show ?thesis
    by simp
qed

section \<open>The foreign keys are kept\<close>

text \<open>
  Both write operations keep the referential constraints of the store, whether they
  succeed or fail; the empty store satisfies them.
\<close>

lemma foreign_keys_ok_insert_header:
  assumes "foreign_keys_ok db" and "parent_exists col oid db"
  shows "foreign_keys_ok (insert_header col oid k v db)"
  using assms
  by (cases col)
     (auto simp: foreign_keys_ok_def insert_header_def parent_exists_def list_all_iff
        split: option.splits)

lemma foreign_keys_ok_insert_headers:
  assumes "foreign_keys_ok db" and "parent_exists col oid db"
  shows "foreign_keys_ok (insert_headers col oid kvs db)"
  using assms
proof (induction kvs arbitrary: db)
  case Nil
  then show ?case by simp
next
  case (Cons kv kvs)
  obtain k v where kv: "kv = (k, v)" by (cases kv)
  show ?case
    using Cons.prems
    by (simp add: kv Cons.IH foreign_keys_ok_insert_header)
qed

lemma foreign_keys_ok_added_request:
  assumes "foreign_keys_ok db"
  shows "foreign_keys_ok (added_request req body timestamp db)"
proof -
  let ?id = "next_rowid (map req_id (http_requests db))"
  let ?db1 = "snd (insert_request (Proto req) (URL req) (Method req) body timestamp db)"
  have 1: "foreign_keys_ok ?db1"
    using assms
    by (auto simp: foreign_keys_ok_def insert_request_def Let_def list_all_iff split: option.splits)
  have 2: "parent_exists Req_id ?id ?db1"
    by (simp add: parent_exists_def insert_request_def Let_def)
  show ?thesis
    using foreign_keys_ok_insert_headers [OF 1 2]
    by (simp add: added_request_def insert_request_def Let_def)
qed

lemma foreign_keys_ok_added_response:
  assumes "foreign_keys_ok db" and "reqID \<in> set (map req_id (http_requests db))"
  shows "foreign_keys_ok (added_response reqID res body timestamp db)"
proof -
  let ?id = "next_rowid (map rsp_id (http_responses db))"
  let ?db1 = "snd (insert_response reqID (res_Proto res) (StatusCode res)
                     (statusReason_of (Status res)) body timestamp db)"
  have 1: "foreign_keys_ok ?db1"
    using assms
    by (auto simp: foreign_keys_ok_def insert_response_def Let_def list_all_iff split: option.splits)
  have 2: "parent_exists Res_id ?id ?db1"
    by (simp add: parent_exists_def insert_response_def Let_def)
  show ?thesis
    using foreign_keys_ok_insert_headers [OF 1 2]
    by (simp add: added_response_def insert_response_def Let_def)
qed

lemma foreign_keys_ok_AddRequestLog:
  assumes "foreign_keys_ok (store c)" and "work c = None"
  shows "foreign_keys_ok (store (snd (AddRequestLog req body timestamp c)))"
proof (cases "no_fault (6 + length (Header_pairs (range_Header (Header req)))) (faults c)")
  case True
  show ?thesis
    by (simp add: AddRequestLog_success [OF True] foreign_keys_ok_added_request [OF assms(1)])
next
  case False
  show ?thesis
    using AddRequestLog_failure [OF False assms(2), of body timestamp] assms(1) by simp
qed

lemma foreign_keys_ok_AddResponseLog:
  assumes "foreign_keys_ok (store c)" and "work c = None"
  shows "foreign_keys_ok (store (snd (AddResponseLog reqID res body timestamp c)))"
proof (cases "no_fault (6 + length (Header_pairs (range_Header (res_Header res)))) (faults c) \<and>
              reqID \<in> set (map req_id (http_requests (store c)))")
  case True
  then have ok: "no_fault (6 + length (Header_pairs (range_Header (res_Header res)))) (faults c)"
    and known: "reqID \<in> set (map req_id (http_requests (store c)))"
    by blast+
  show ?thesis
    by (simp add: AddResponseLog_success [OF ok known]
        foreign_keys_ok_added_response [OF assms(1) known])
next
  case False
  then have "\<not> no_fault (6 + length (Header_pairs (range_Header (res_Header res)))) (faults c) \<or>
             reqID \<notin> set (map req_id (http_requests (store c)))"
    by blast
  from AddResponseLog_failure [OF this assms(2), of body timestamp] assms(1)
  show ?thesis by simp
qed

section \<open>Atomic writes\<close>

text \<open>
  Claim C2. \<^verbatim>\<open>AddRequestLog\<close> is atomic. Started on a connection without an open
  transaction, the call makes \<open>6 + n\<close> driver calls for a request with \<open>n\<close> header
  entries (begin, prepare, insert of the request row, last insert id, prepare, one insert
  per header entry, commit). If none of them fails, the call returns the record with the
  id the store assigned and the store holds the request row and all its header rows. If
  any of them fails, the call returns an error and the store is exactly what it was: no
  request row without its headers is ever committed. Either way no transaction is left
  open.
\<close>

theorem AddRequestLog_atomic:
  assumes "work c = None"
    and "AddRequestLog req body timestamp c = (r, c')"
  shows "work c' = None \<and>
     (if no_fault (6 + length (Header_pairs (range_Header (Header req)))) (faults c)
      then r = Inr \<lparr>ID = next_rowid (map req_id (http_requests (store c))), Request = req,
                    Body = body, Timestamp = timestamp, req_Response = None\<rparr> \<and>
           store c' = added_request req body timestamp (store c)
      else (\<exists>e. r = Inl e) \<and> store c' = store c)"
proof (cases "no_fault (6 + length (Header_pairs (range_Header (Header req)))) (faults c)")
  case True
  show ?thesis
    using assms(2) True by (auto simp: AddRequestLog_success [OF True])
next
  case False
  show ?thesis
    using AddRequestLog_failure [OF False assms(1), of body timestamp] False
    by (simp add: assms(2))
qed

text \<open>
  At work: the example request has two header entries; with a failure of the last header
  insert the call fails and the store stays empty, without failures the request row and
  both header rows are stored under id 1.
\<close>

theorem AddRequestLog_atomic_witness:
  "work (no_connection_faults\<lparr>faults := [False, False, False, False, False, False, True]\<rparr>) = None \<and>
   (\<exists>e. fst (AddRequestLog example_request ''abc'' 5
              (no_connection_faults\<lparr>faults := [False, False, False, False, False, False, True]\<rparr>)) = Inl e) \<and>
   store (snd (AddRequestLog example_request ''abc'' 5
              (no_connection_faults\<lparr>faults := [False, False, False, False, False, False, True]\<rparr>))) =
     empty_database \<and>
   fst (AddRequestLog example_request ''abc'' 5 no_connection_faults) =
     Inr \<lparr>ID = 1, Request = example_request, Body = ''abc'', Timestamp = 5, req_Response = None\<rparr> \<and>
   http_requests (store (snd (AddRequestLog example_request ''abc'' 5 no_connection_faults))) =
     [\<lparr>req_id = 1, req_proto = ''HTTP/1.1'', req_url = ''http://x.test/a'', req_method = ''GET'',
       req_body = ''abc'', req_timestamp = 5\<rparr>] \<and>
   map (\<lambda>h. (hdr_req_id h, hdr_key h, hdr_value h))
     (http_headers (store (snd (AddRequestLog example_request ''abc'' 5 no_connection_faults)))) =
     [(Some 1, ''H'', ''1''), (Some 1, ''H'', ''2'')]"
  using
    AddRequestLog_atomic [of "no_connection_faults\<lparr>faults := [False, False, False, False, False, False, True]\<rparr>"
      example_request "''abc''" 5
      "fst (AddRequestLog example_request ''abc'' 5
              (no_connection_faults\<lparr>faults := [False, False, False, False, False, False, True]\<rparr>))"
      "snd (AddRequestLog example_request ''abc'' 5
              (no_connection_faults\<lparr>faults := [False, False, False, False, False, False, True]\<rparr>))"]
    AddRequestLog_atomic [of no_connection_faults example_request "''abc''" 5
      "fst (AddRequestLog example_request ''abc'' 5 no_connection_faults)"
      "snd (AddRequestLog example_request ''abc'' 5 no_connection_faults)"]
  by (simp add: no_connection_faults_def example_request_def no_fault_def Header_pairs_def
      range_Header_def added_request_def insert_request_def insert_headers_def insert_header_def
      next_rowid_def empty_database_def Let_def)

section \<open>Status reason\<close>

text \<open>
  Claim C6. Every successful \<^verbatim>\<open>AddResponseLog\<close> appends one response row, with the id
  the call returns, whose \<^verbatim>\<open>status_reason\<close> is the status line of the response from
  index 4 onward, and so is empty whenever the status line has no character at index 4.
\<close>

theorem AddResponseLog_status_reason:
  assumes "work c = None"
    and "AddResponseLog reqID res body timestamp c = (Inr resLog, c')"
  shows "\<exists>row. http_responses (store c') = http_responses (store c) @ [row] \<and>
               rsp_id row = res_ID resLog \<and>
               rsp_status_reason row = drop 4 (Status res) \<and>
               (length (Status res) \<le> 4 \<longrightarrow> rsp_status_reason row = [])"
proof -
  let ?ok = "no_fault (6 + length (Header_pairs (range_Header (res_Header res)))) (faults c)"
  let ?known = "reqID \<in> set (map req_id (http_requests (store c)))"
  have "?ok \<and> ?known"
  proof (rule ccontr)
    assume "\<not> (?ok \<and> ?known)"
    then have "\<not> ?ok \<or> \<not> ?known" by blast
    from AddResponseLog_failure [OF this assms(1), of body timestamp]
    show False by (simp add: assms(2))
  qed
  then have ok: ?ok and known: ?known by blast+
  show ?thesis
    using assms(2)
    by (auto simp: AddResponseLog_success [OF ok known] added_response_def insert_response_def
        Let_def statusReason_of_drop)
qed

text \<open>At work: the status line \<^verbatim>\<open>200 OK\<close> is stored as the reason \<^verbatim>\<open>OK\<close>.\<close>

theorem AddResponseLog_status_reason_witness:
  "work (snd (AddRequestLog example_request [] 5 no_connection_faults)) = None \<and>
   fst (AddResponseLog 1 example_response ''hi'' 6
          (snd (AddRequestLog example_request [] 5 no_connection_faults))) =
     Inr \<lparr>res_ID = 1, RequestID = 1, Response = example_response, res_Body = ''hi'',
           res_Timestamp = 6\<rparr> \<and>
   map rsp_status_reason
     (http_responses (store (snd (AddResponseLog 1 example_response ''hi'' 6
          (snd (AddRequestLog example_request [] 5 no_connection_faults)))))) = [''OK'']"
proof -
  let ?c1 = "snd (AddRequestLog example_request [] 5 no_connection_faults)"
  let ?out = "AddResponseLog 1 example_response ''hi'' 6 ?c1"
  have c1: "?c1 = \<lparr>store = added_request example_request [] 5 empty_database, work = None, faults = []\<rparr>"
    by (simp add: AddRequestLog_success no_connection_faults_def no_fault_def)
  have known: "1 \<in> set (map req_id (http_requests (store ?c1)))"
    by (simp add: c1 added_request_def insert_request_def next_rowid_def empty_database_def Let_def)
  have nf: "no_fault (6 + length (Header_pairs (range_Header (res_Header example_response)))) (faults ?c1)"
    by (simp add: c1 no_fault_def)
  have none: "http_responses (store ?c1) = []"
    by (simp add: c1 added_request_def insert_request_def empty_database_def Let_def)
  have f: "fst ?out = Inr \<lparr>res_ID = 1, RequestID = 1, Response = example_response, res_Body = ''hi'',
           res_Timestamp = 6\<rparr>"
    by (simp add: AddResponseLog_success [OF nf known] none next_rowid_def)
  have out: "?out = (Inr \<lparr>res_ID = 1, RequestID = 1, Response = example_response, res_Body = ''hi'',
           res_Timestamp = 6\<rparr>, snd ?out)"
    by (simp add: prod_eq_iff f)
  have idle: "work ?c1 = None"
    by (simp add: c1)
  from AddResponseLog_status_reason [OF idle out]
  have "map rsp_status_reason (http_responses (store (snd ?out))) = [''OK'']"
    by (auto simp: none example_response_def)
  with idle f show ?thesis
    by simp
qed

section \<open>Empty bodies at the query API\<close>

text \<open>
  Claim C10. When \<^verbatim>\<open>parseRequestLog\<close> succeeds, the body field of the request log is
  absent if the stored body is empty and holds the body otherwise; the same holds for the
  body of the response log, when the record has a response.
\<close>

theorem parseRequestLog_empty_body_absent:
  assumes "parseRequestLog ID_String req = Inr log"
  shows "log_Body log = (if Body req = [] then None else Some (Body req)) \<and>
     (case req_Response req of
        None \<Rightarrow> log_Response log = None
      | Some res \<Rightarrow>
          (\<exists>r. log_Response log = Some r \<and>
               rlog_Body r = (if res_Body res = [] then None else Some (res_Body res))))"
  using assms
  by (auto simp: parseRequestLog_def Let_def split: if_splits option.splits)

text \<open>At work: a record with an empty request body and an empty response body.\<close>

theorem parseRequestLog_empty_body_absent_witness:
  "parseRequestLog FormatInt
     \<lparr>ID = 1, Request = example_request, Body = [], Timestamp = 5,
      req_Response = Some \<lparr>res_ID = 1, RequestID = 1, Response = example_response, res_Body = [],
                            res_Timestamp = 6\<rparr>\<rparr> =
     Inr \<lparr>log_ID = FormatInt 1, log_URL = ''http://x.test/a'', log_Proto = ''HTTP/1.1'',
          log_Method = ''GET'', log_Timestamp = 5, log_Body = None,
          log_Headers = Some [\<lparr>Key = ''H'', Value = ''1''\<rparr>, \<lparr>Key = ''H'', Value = ''2''\<rparr>],
          log_Response =
            Some \<lparr>rlog_RequestID = FormatInt 1, rlog_Proto = ''HTTP/1.1'', rlog_Status = ''200 OK'',
                  rlog_StatusCode = 200, rlog_Body = None,
                  rlog_Headers = Some [\<lparr>Key = ''Content-Type'', Value = ''text/plain''\<rparr>]\<rparr>\<rparr>"
proof -
  let ?req = "\<lparr>ID = 1, Request = example_request, Body = [], Timestamp = 5,
      req_Response = Some \<lparr>res_ID = 1, RequestID = 1, Response = example_response, res_Body = [],
                            res_Timestamp = 6\<rparr>\<rparr>"
  obtain log where l: "parseRequestLog FormatInt ?req = Inr log"
    by (simp add: parseRequestLog_def Let_def HTTPMethod_IsValid_def example_request_def)
  from parseRequestLog_empty_body_absent [OF l] l
  show ?thesis
    by (simp add: parseRequestLog_def Let_def HTTPMethod_IsValid_def example_request_def
        example_response_def header_entries_def)
qed

section \<open>The planner and the join\<close>

text \<open>
  Claim C4. For the projection that selects only \<open>url\<close> the planner returns the columns
  \<^verbatim>\<open>req.id\<close>, \<^verbatim>\<open>res.id\<close> and \<^verbatim>\<open>req.url\<close> with \<open>joinResponse\<close> false, and neither base
  query has a join: \<^verbatim>\<open>res.id\<close> is selected although the response table is not joined.
\<close>

theorem planner_selects_res_id_without_join:
  "parseHTTPRequestLogsQuery [Field ''url'' []] =
     \<lparr>requestCols = [''req.id AS req_id'', ''res.id AS res_id'', ''req.url''],
      requestHeaderCols = [], responseHeaderCols = [], joinResponse = False\<rparr> \<and>
   Joins (FindRequestLogs_query (parseHTTPRequestLogsQuery [Field ''url'' []])) = [] \<and>
   Joins (FindRequestLogByID_query (parseHTTPRequestLogsQuery [Field ''url'' []])) = []"
  by (simp add: parseHTTPRequestLogsQuery_def reqFieldToColumnMap_def FindRequestLogs_query_def
      FindRequestLogByID_query_def sq_Select_def sq_From_def sq_OrderBy_def sq_Where_def Let_def)

section \<open>Round trip of a request\<close>




section \<open>Header keys on the way back\<close>




section \<open>Method validation\<close>

text \<open>
  Claim C9. On a connection without driver faults and without an open transaction, whose
  store satisfies the foreign keys, \<^verbatim>\<open>AddRequestLog\<close> succeeds whatever the method
  string of the request is and keeps it; the record read back under the full projection
  has that method, and \<^verbatim>\<open>parseRequestLog\<close> fails on it with the invalid-method error
  when the method is outside the recognized set and succeeds with that method otherwise.
\<close>

theorem method_checked_only_at_api:
  assumes "faults c = []" and "work c = None" and "foreign_keys_ok (store c)"
  shows "\<exists>reqLog c' stored.
           AddRequestLog req body timestamp c = (Inr reqLog, c') \<and>
           FindRequestLogByID fullProjection (ID reqLog) c' = (Inr stored, c') \<and>
           Method (Request reqLog) = Method req \<and>
           Method (Request stored) = Method req \<and>
           (if HTTPMethod_IsValid (Method req)
            then \<exists>log. parseRequestLog ID_String stored = Inr log \<and> log_Method log = Method req
            else parseRequestLog ID_String stored = Inl (InvalidMethod (Method req)))"
proof -
  let ?n = "6 + length (Header_pairs (range_Header (Header req)))"
  let ?reqLog = "\<lparr>ID = next_rowid (map req_id (http_requests (store c))), Request = req,
                   Body = body, Timestamp = timestamp, req_Response = None\<rparr>"
  let ?c' = "c\<lparr>store := added_request req body timestamp (store c), work := None,
               faults := drop ?n (faults c)\<rparr>"
  let ?stored = "?reqLog\<lparr>Request := (Request ?reqLog)\<lparr>Header :=
            Some (collect_headers (Header_pairs (range_Header (Header req))))\<rparr>\<rparr>"
  have nf: "no_fault ?n (faults c)"
    using assms(1) by (simp add: no_fault_def)
  have a: "AddRequestLog req body timestamp c = (Inr ?reqLog, ?c')"
    by (rule AddRequestLog_success [OF nf])
  have q: "faults ?c' = []"
    using assms(1) by simp
  have f: "FindRequestLogByID fullProjection (ID ?reqLog) ?c' = (Inr ?stored, ?c')"
    by (rule FindRequestLogByID_after_AddRequestLog [OF a assms(2) q assms(3)])
  have p: "if HTTPMethod_IsValid (Method req)
            then \<exists>log. parseRequestLog ID_String ?stored = Inr log \<and> log_Method log = Method req
            else parseRequestLog ID_String ?stored = Inl (InvalidMethod (Method req))"
    by (simp add: parseRequestLog_def Let_def)
  show ?thesis
    using a f p by (intro exI [of _ ?reqLog] exI [of _ ?c'] exI [of _ ?stored]) simp
qed

text \<open>At work: a request with the method \<^verbatim>\<open>BREW\<close> is stored and refused at the API.\<close>

theorem method_checked_only_at_api_witness:
  "\<exists>reqLog c' stored.
     AddRequestLog brew_request [] 5 no_connection_faults = (Inr reqLog, c') \<and>
     FindRequestLogByID fullProjection (ID reqLog) c' = (Inr stored, c') \<and>
     parseRequestLog FormatInt stored = Inl (InvalidMethod ''BREW'')"
proof -
  have a1: "faults no_connection_faults = []" and a2: "work no_connection_faults = None"
    and a3: "foreign_keys_ok (store no_connection_faults)"
    by (simp_all add: no_connection_faults_def foreign_keys_ok_empty)
  have m: "Method brew_request = ''BREW''" and bad: "\<not> HTTPMethod_IsValid ''BREW''"
    by (simp_all add: brew_request_def HTTPMethod_IsValid_def)
  from method_checked_only_at_api [OF a1 a2 a3, of brew_request "[]" 5 FormatInt]
  show ?thesis
    by (simp add: m bad) blast
qed

section \<open>Queries that do not select the response\<close>

text \<open>
  Claim C3. For the projection that selects only \<open>url\<close>, \<^verbatim>\<open>FindRequestLogs\<close> without any
  driver fault returns no records, whatever the store holds: the statement names
  \<^verbatim>\<open>res.id\<close> without joining the response table, and executing it fails.
\<close>

theorem FindRequestLogs_without_response_fails:
  "fst (FindRequestLogs [Field ''url'' []] (c\<lparr>faults := []\<rparr>)) =
     Inl (Errorf ''sqlite: could not execute query'' (DriverErr ''no such column: res.id''))"
  by (simp add: FindRequestLogs_def parseHTTPRequestLogsQuery_def reqFieldToColumnMap_def
      FindRequestLogs_query_def sq_Select_def sq_From_def sq_OrderBy_def sq_ToSql_def Let_def
      QueryxContext_def driver_call_quiet run_select_requests_def unknown_column_def
      column_name_def)

text \<open>
  Claim C5. For the projection that selects only \<open>url\<close>, \<^verbatim>\<open>FindRequestLogByID\<close> without
  any driver fault returns the generic scan error for every id and every store, also when
  no request with that id exists: the error of the refused statement is not
  \<^verbatim>\<open>sql.ErrNoRows\<close>.
\<close>

theorem FindRequestLogByID_without_response_not_NotFound:
  "fst (FindRequestLogByID [Field ''url'' []] ident (c\<lparr>faults := []\<rparr>)) =
     Inl (Errorf ''sqlite: could not scan row'' (DriverErr ''no such column: res.id''))"
  by (simp add: FindRequestLogByID_def parseHTTPRequestLogsQuery_def reqFieldToColumnMap_def
      FindRequestLogByID_query_def sq_Select_def sq_From_def sq_Where_def sq_ToSql_def Let_def
      QueryxContext_def driver_call_quiet run_select_requests_def unknown_column_def
      column_name_def Row_StructScan_def)

section \<open>A projection with one header column\<close>

text \<open>
  Claim C8. With the example request stored (two header rows), \<^verbatim>\<open>FindRequestLogs\<close> for
  a projection that selects only \<open>key\<close> of the request headers fails: the header statement
  returns one column and \<^verbatim>\<open>findHeaders\<close> scans two.
\<close>

theorem FindRequestLogs_header_key_only_fails:
  "fst (FindRequestLogs
          [Field ''headers'' [Field ''key'' []], Field ''response'' [Field ''statusCode'' []]]
          (snd (AddRequestLog example_request [] 5 no_connection_faults))) =
     Inl (Errorf ''sqlite: could not query headers''
           (Errorf ''could not query request headers''
             (Errorf ''sqlite: could not scan row''
               (DriverErr ''sql: expected 1 destination arguments in Scan, not 2''))))"
  by (simp add: after_example_request FindRequestLogs_def parseHTTPRequestLogsQuery_def
      reqFieldToColumnMap_def resFieldToColumnMap_def headerFieldToColumnMap_def
      FindRequestLogs_query_def sq_Select_def sq_From_def sq_OrderBy_def sq_LeftJoin_def
      sq_Where_def sq_ToSql_def Let_def
      QueryxContext_def driver_call_quiet run_select_requests_def unknown_column_def
      left_join_def rows_StructScan_def rows_Err_def scan_httpRequest_def selected_def
      toRequestLog_def queryHeaders_def queryHeaders_part_def headers_query_def
      PrepareContext_def findHeaders_def stmt_QueryContext_def run_select_headers_def
      rows_Scan2_def decimal_1 [unfolded One_nat_def])

end
